theory Spec2Isabelle
  imports Complex_Main "HOL-Library.AList" "HOL-Library.Sublist" "HOL-Library.Char_ord"
    "HOL-Library.List_Lexorder" "HOL-Library.Product_Lexorder"
begin

section \<open>Python strings\<close>

text \<open>
  The validator (\<^verbatim>\<open>scripts/docs/validate_docs.py\<close>) works on Python \<^verbatim>\<open>str\<close> values.
  A \<^typ>\<open>char\<close> stands for one code point in the range U+0000 to U+00FF; texts with
  higher code points lie outside the model.  The character classes below are the ones the
  interpreter uses on that range: \<^verbatim>\<open>str.isspace\<close> (also \<^verbatim>\<open>\s\<close> of the \<^verbatim>\<open>re\<close> module and
  the characters removed by \<^verbatim>\<open>str.strip\<close>), the line boundaries of \<^verbatim>\<open>str.splitlines\<close>,
  \<^verbatim>\<open>\w\<close>, \<^verbatim>\<open>\d\<close> and \<^verbatim>\<open>str.lower\<close>.
\<close>

definition isspace :: "char \<Rightarrow> bool" where
  "isspace c =
     (let n = (of_char c :: nat)
      in (9 \<le> n \<and> n \<le> 13) \<or> (28 \<le> n \<and> n \<le> 32) \<or> n = 133 \<or> n = 160)"

definition islinebreak :: "char \<Rightarrow> bool" where
  "islinebreak c =
     (let n = (of_char c :: nat)
      in (10 \<le> n \<and> n \<le> 13) \<or> (28 \<le> n \<and> n \<le> 30) \<or> n = 133)"

definition is_ascii_upper :: "char \<Rightarrow> bool" where
  "is_ascii_upper c = (let n = (of_char c :: nat) in 65 \<le> n \<and> n \<le> 90)"

definition is_ascii_lower :: "char \<Rightarrow> bool" where
  "is_ascii_lower c = (let n = (of_char c :: nat) in 97 \<le> n \<and> n \<le> 122)"

definition is_ascii_digit :: "char \<Rightarrow> bool" where
  "is_ascii_digit c = (let n = (of_char c :: nat) in 48 \<le> n \<and> n \<le> 57)"

text \<open>The class \<^verbatim>\<open>[A-Za-z0-9_-]\<close> of the fence and key patterns.\<close>

definition is_name_char :: "char \<Rightarrow> bool" where
  "is_name_char c =
     (is_ascii_upper c \<or> is_ascii_lower c \<or> is_ascii_digit c \<or> c = CHR ''_'' \<or> c = CHR ''-'')"

text \<open>
  \<^verbatim>\<open>\w\<close> on a \<^verbatim>\<open>str\<close> pattern: alphanumeric code points and the underscore.  Above
  U+007F these are U+00AA, U+00B2, U+00B3, U+00B5, U+00B9, U+00BA, U+00BC to U+00BE and
  the letters U+00C0 to U+00FF without the two operators U+00D7 and U+00F7.
\<close>

definition is_word_char :: "char \<Rightarrow> bool" where
  "is_word_char c =
     (let n = (of_char c :: nat)
      in is_ascii_upper c \<or> is_ascii_lower c \<or> is_ascii_digit c \<or> c = CHR ''_''
         \<or> n = 170 \<or> n = 178 \<or> n = 179 \<or> n = 181 \<or> n = 185 \<or> n = 186
         \<or> (188 \<le> n \<and> n \<le> 190)
         \<or> (192 \<le> n \<and> n \<noteq> 215 \<and> n \<noteq> 247))"

text \<open>\<^verbatim>\<open>str.lower\<close>, one character at a time: A to Z and U+00C0 to U+00DE without U+00D7.\<close>

definition lower_char :: "char \<Rightarrow> char" where
  "lower_char c =
     (let n = (of_char c :: nat)
      in if (65 \<le> n \<and> n \<le> 90) \<or> (192 \<le> n \<and> n \<le> 222 \<and> n \<noteq> 215)
         then char_of (n + 32) else c)"

definition lower :: "string \<Rightarrow> string" where
  "lower s = map lower_char s"

definition lstrip :: "string \<Rightarrow> string" where
  "lstrip s = dropWhile isspace s"

definition rstrip :: "string \<Rightarrow> string" where
  "rstrip s = rev (dropWhile isspace (rev s))"

definition strip :: "string \<Rightarrow> string" where
  "strip s = lstrip (rstrip s)"

definition startswith :: "string \<Rightarrow> string \<Rightarrow> bool" where
  "startswith s p = (take (length p) s = p)"

definition endswith :: "string \<Rightarrow> string \<Rightarrow> bool" where
  "endswith s p = (length p \<le> length s \<and> drop (length s - length p) s = p)"

definition nl :: string where
  "nl = [CHR 0x0A]"

text \<open>
  \<^verbatim>\<open>str.splitlines()\<close>: a line ends at a line boundary, CR LF counts as one boundary,
  the boundaries are dropped and a final boundary opens no further line.
\<close>

fun splitlines :: "string \<Rightarrow> string list" where
  "splitlines [] = []"
| "splitlines [c] = (if islinebreak c then [[]] else [[c]])"
| "splitlines (c # d # cs) =
     (if c = CHR 0x0D \<and> d = CHR 0x0A then [] # splitlines cs
      else if islinebreak c then [] # splitlines (d # cs)
      else (case splitlines (d # cs) of [] \<Rightarrow> [[c]] | l # ls \<Rightarrow> (c # l) # ls))"

text \<open>\<^verbatim>\<open>sep.join(parts)\<close>.\<close>

fun join :: "string \<Rightarrow> string list \<Rightarrow> string" where
  "join sep [] = []"
| "join sep [x] = x"
| "join sep (x # y # ys) = x @ sep @ join sep (y # ys)"

section \<open>The data model\<close>

text \<open>
  \<^verbatim>\<open>Problem(check, path, message, line=None)\<close>, \<^verbatim>\<open>LinkRef(target, line)\<close> and
  \<^verbatim>\<open>DocRecord\<close>.  A metadata value is what \<^verbatim>\<open>parse_scalar\<close> and the list syntax can
  produce: a string, a boolean, or a list of those.  The metadata \<^verbatim>\<open>dict\<close> is an
  association list in insertion order.  A \<^verbatim>\<open>Path\<close> is the list of the components of an
  absolute POSIX path below the root directory.
\<close>

datatype problem = Problem (check: string) (ppath: string) (message: string) (line: "nat option")

datatype link_ref = LinkRef (target: string) (lline: nat)

datatype scalar = SStr string | SBool bool

datatype fmvalue = Scalar scalar | FList "scalar list"

type_synonym frontmatter_dict = "(string \<times> fmvalue) list"

type_synonym path = "string list"

record doc_record =
  path :: path
  rel_path :: string
  doc_text :: string
  frontmatter :: frontmatter_dict
  body :: string
  headings :: "string list"
  anchors :: "string set"
  links :: "link_ref list"

section \<open>Fences\<close>

text \<open>
  \<^verbatim>\<open>FENCE_RE = ^```(?P<lang>[A-Za-z0-9_-]*)\s*$\<close>, applied with \<^verbatim>\<open>match\<close> to one line:
  three backticks, the language tag, then white space up to the end.  The result is the
  group \<^verbatim>\<open>lang\<close> of a match.
\<close>

definition fence_match :: "string \<Rightarrow> string option" where
  "fence_match line' =
     (if startswith line' ''```''
      then (let rest = drop 3 line'
            in if list_all isspace (dropWhile is_name_char rest)
               then Some (takeWhile is_name_char rest) else None)
      else None)"

definition is_fence :: "string \<Rightarrow> bool" where
  "is_fence line' = (fence_match line' \<noteq> None)"

text \<open>
  Every extractor keeps a flag that each fence line flips.  After the lines \<open>ls\<close> the
  flag is set exactly when \<open>ls\<close> holds an odd number of fence lines.
\<close>

definition fence_open :: "string list \<Rightarrow> bool" where
  "fence_open ls = odd (length (filter is_fence ls))"

section \<open>Mermaid blocks\<close>

record mermaid_state =
  blocks :: "(nat \<times> string) list"
  problems :: "problem list"
  in_fence :: bool
  fence_lang :: string
  fence_start_line :: nat
  buffer :: "string list"

definition mermaid_init :: mermaid_state where
  "mermaid_init =
     \<lparr>blocks = [], problems = [], in_fence = False, fence_lang = [],
      fence_start_line = 0, buffer = []\<rparr>"

text \<open>One turn of the loop of \<^verbatim>\<open>extract_fenced_mermaid_blocks\<close>.\<close>

definition mermaid_step :: "string \<Rightarrow> nat \<times> string \<Rightarrow> mermaid_state \<Rightarrow> mermaid_state" where
  "mermaid_step rel = (\<lambda>(line_no, line') st.
     (case fence_match line' of
        Some lang \<Rightarrow>
          (if \<not> in_fence st
           then st\<lparr>in_fence := True, fence_lang := lower (strip lang),
                   fence_start_line := line_no, buffer := []\<rparr>
           else (let st' =
                   (if fence_lang st = ''mermaid''
                    then (let source = strip (join nl (buffer st))
                          in if source = []
                             then st\<lparr>problems := problems st @
                                    [Problem ''mermaid'' rel ''empty mermaid block''
                                       (Some (fence_start_line st))]\<rparr>
                             else st\<lparr>blocks := blocks st @ [(fence_start_line st, source)]\<rparr>)
                    else st)
                 in st'\<lparr>in_fence := False, fence_lang := [], buffer := []\<rparr>))
      | None \<Rightarrow> (if in_fence st then st\<lparr>buffer := buffer st @ [line']\<rparr> else st)))"

text \<open>The loop from line number \<open>n\<close> on, and the check after it.\<close>

definition mermaid_loop :: "string \<Rightarrow> nat \<Rightarrow> string list \<Rightarrow> mermaid_state \<Rightarrow> mermaid_state" where
  "mermaid_loop rel n ls st = fold (mermaid_step rel) (List.enumerate n ls) st"

definition mermaid_finish :: "string \<Rightarrow> mermaid_state \<Rightarrow> (nat \<times> string) list \<times> problem list" where
  "mermaid_finish rel st =
     (blocks st,
      if in_fence st
      then problems st @ [Problem ''mermaid'' rel ''unclosed code fence'' (Some (fence_start_line st))]
      else problems st)"

definition mermaid_lines :: "string \<Rightarrow> string list \<Rightarrow> (nat \<times> string) list \<times> problem list" where
  "mermaid_lines rel ls = mermaid_finish rel (mermaid_loop rel 1 ls mermaid_init)"

definition extract_fenced_mermaid_blocks ::
    "doc_record \<Rightarrow> (nat \<times> string) list \<times> problem list" where
  "extract_fenced_mermaid_blocks record = mermaid_lines (rel_path record) (splitlines (body record))"

section \<open>Headings and anchors\<close>

text \<open>
  \<^verbatim>\<open>HEADER_RE = ^(#{1,6})\s+(.*)$\<close>, applied with \<^verbatim>\<open>match\<close> to one line of
  \<^verbatim>\<open>splitlines\<close> (which holds no line feed): one to six number signs, white space, and
  the rest of the line as group 2, which is the result.
\<close>

definition header_match :: "string \<Rightarrow> string option" where
  "header_match line' =
     (let n = length (takeWhile (\<lambda>c. c = CHR ''#'') line'); rest = drop n line'
      in if 1 \<le> n \<and> n \<le> 6 \<and> rest \<noteq> [] \<and> isspace (hd rest)
         then Some (dropWhile isspace rest) else None)"

text \<open>\<^verbatim>\<open>re.sub(r"\s+", rep, value)\<close>: every maximal run of white space becomes \<open>rep\<close>.\<close>

function sub_space_runs :: "string \<Rightarrow> string \<Rightarrow> string" where
  "sub_space_runs rep [] = []"
| "sub_space_runs rep (c # cs) =
     (if isspace c then rep @ sub_space_runs rep (dropWhile isspace cs)
      else c # sub_space_runs rep cs)"
  by pat_completeness auto
termination
  by (relation "measure (\<lambda>(rep, s). length s)") (auto intro: le_imp_less_Suc length_dropWhile_le)

text \<open>\<^verbatim>\<open>re.sub(r"-{2,}", "-", value)\<close>: every run of two or more hyphens becomes one.\<close>

function sub_hyphen_runs :: "string \<Rightarrow> string" where
  "sub_hyphen_runs [] = []"
| "sub_hyphen_runs (c # cs) =
     (if c = CHR ''-'' \<and> cs \<noteq> [] \<and> hd cs = CHR ''-''
      then CHR ''-'' # sub_hyphen_runs (dropWhile (\<lambda>d. d = CHR ''-'') cs)
      else c # sub_hyphen_runs cs)"
  by pat_completeness auto
termination
  by (relation "measure length") (auto intro: le_imp_less_Suc length_dropWhile_le)

text \<open>\<^verbatim>\<open>value.strip("-")\<close>.\<close>

definition strip_hyphens :: "string \<Rightarrow> string" where
  "strip_hyphens s =
     dropWhile (\<lambda>c. c = CHR ''-'') (rev (dropWhile (\<lambda>c. c = CHR ''-'') (rev s)))"

definition slugify_heading :: "string \<Rightarrow> string" where
  "slugify_heading text0 =
     (let v1 = lower (strip text0);
          v2 = filter (\<lambda>c. c \<noteq> CHR 0x60) v1;
          v3 = filter (\<lambda>c. is_word_char c \<or> isspace c \<or> c = CHR ''-'') v2;
          v4 = sub_space_runs ''-'' v3;
          v5 = sub_hyphen_runs v4
      in strip_hyphens v5)"

text \<open>\<^verbatim>\<open>str(n)\<close> for a count, as the f-string prints it.\<close>

fun str_nat :: "nat \<Rightarrow> string" where
  "str_nat n =
     (if n < 10 then [char_of (48 + n)] else str_nat (n div 10) @ [char_of (48 + n mod 10)])"

declare str_nat.simps [simp del]

text \<open>
  The loop of \<^verbatim>\<open>extract_headings_and_anchors\<close>.  \<open>h_counts\<close> is the
  \<^verbatim>\<open>defaultdict(int)\<close>: a count for every slug, zero at the start.
\<close>

record heading_state =
  h_headings :: "string list"
  h_anchors :: "string set"
  h_counts :: "string \<Rightarrow> nat"
  h_in_fence :: bool

definition heading_init :: heading_state where
  "heading_init = \<lparr>h_headings = [], h_anchors = {}, h_counts = (\<lambda>_. 0), h_in_fence = False\<rparr>"

definition anchor_for :: "string \<Rightarrow> nat \<Rightarrow> string" where
  "anchor_for base count = (if count = 0 then base else base @ ''-'' @ str_nat count)"

definition heading_step :: "string \<Rightarrow> heading_state \<Rightarrow> heading_state" where
  "heading_step line' st =
     (if is_fence line' then st\<lparr>h_in_fence := \<not> h_in_fence st\<rparr>
      else if h_in_fence st then st
      else (case header_match line' of
              None \<Rightarrow> st
            | Some g \<Rightarrow>
                (let text0 = strip g;
                     st1 = st\<lparr>h_headings := h_headings st @ [text0]\<rparr>;
                     base = slugify_heading text0
                 in if base = [] then st1
                    else (let count = h_counts st1 base
                          in st1\<lparr>h_counts := (h_counts st1)(base := count + 1),
                                 h_anchors := insert (anchor_for base count) (h_anchors st1)\<rparr>))))"

definition heading_loop :: "string list \<Rightarrow> heading_state \<Rightarrow> heading_state" where
  "heading_loop ls st = fold heading_step ls st"

definition headings_of_lines :: "string list \<Rightarrow> string list \<times> string set" where
  "headings_of_lines ls =
     (let st = heading_loop ls heading_init in (h_headings st, h_anchors st))"

definition extract_headings_and_anchors :: "string \<Rightarrow> string list \<times> string set" where
  "extract_headings_and_anchors body0 = headings_of_lines (splitlines body0)"

text \<open>
  The shape of a slug, for the proof that \<^verbatim>\<open>slugify_heading\<close> is idempotent: no two
  hyphens in a row, and only lower-cased word characters and hyphens.
\<close>

fun no_double :: "string \<Rightarrow> bool" where
  "no_double [] = True"
| "no_double [c] = True"
| "no_double (c # d # cs) = (\<not> (c = CHR ''-'' \<and> d = CHR ''-'') \<and> no_double (d # cs))"

definition slug_chars :: "string \<Rightarrow> bool" where
  "slug_chars s = (\<forall>c \<in> set s. (is_word_char c \<or> c = CHR ''-'') \<and> lower_char c = c)"

text \<open>
  The invariant of the heading loop: the count kept for a non-empty slug is the number of
  headings met so far that have this slug.
\<close>

definition counts_ok :: "heading_state \<Rightarrow> bool" where
  "counts_ok st =
     (\<forall>b. b \<noteq> [] \<longrightarrow> h_counts st b = count_list (map slugify_heading (h_headings st)) b)"

section \<open>Links\<close>

text \<open>
  \<^verbatim>\<open>MARKDOWN_LINK_RE = (?<!!)\[[^\]]+\]\(([^)]+)\)\<close>.  \<open>link_match_at\<close> matches the
  pattern without its look-behind at the head of a string and returns group 1 and the
  text after the match: an opening bracket, a non-empty label up to the first closing
  bracket, an opening parenthesis, a non-empty target up to the first closing parenthesis.
\<close>

definition link_match_at :: "string \<Rightarrow> (string \<times> string) option" where
  "link_match_at s =
     (case s of
        [] \<Rightarrow> None
      | c # cs \<Rightarrow>
          (if c \<noteq> CHR ''['' then None
           else (let label = takeWhile (\<lambda>d. d \<noteq> CHR '']'') cs;
                     r1 = dropWhile (\<lambda>d. d \<noteq> CHR '']'') cs
                 in if label = [] \<or> r1 = [] then None
                    else (case tl r1 of
                            [] \<Rightarrow> None
                          | p # r2 \<Rightarrow>
                              (if p \<noteq> CHR ''('' then None
                               else (let tgt = takeWhile (\<lambda>d. d \<noteq> CHR '')'') r2;
                                         r3 = dropWhile (\<lambda>d. d \<noteq> CHR '')'') r2
                                     in if tgt = [] \<or> r3 = [] then None
                                        else Some (tgt, tl r3)))))))"

lemma link_match_at_shorter:
  "link_match_at s = Some (tgt, rest) \<Longrightarrow> length rest < length s"
proof -
  assume m: "link_match_at s = Some (tgt, rest)"
  have le: "\<And>P (xs :: string). length (tl (dropWhile P xs)) \<le> length xs"
    by (metis diff_le_self le_trans length_dropWhile_le length_tl)
  from m obtain c cs where s: "s = c # cs"
    by (cases s) (simp_all add: link_match_at_def)
  from m s obtain p r2 where r1: "tl (dropWhile (\<lambda>d. d \<noteq> CHR '']'') cs) = p # r2"
    and rest: "rest = tl (dropWhile (\<lambda>d. d \<noteq> CHR '')'') r2)"
    by (auto simp: link_match_at_def Let_def split: if_splits list.splits)
  have "length rest \<le> length r2" using rest le by simp
  moreover have "length (p # r2) \<le> length cs" using le [of "\<lambda>d. d \<noteq> CHR '']''" cs] r1 by simp
  ultimately show ?thesis using s by simp
qed

text \<open>
  \<^verbatim>\<open>MARKDOWN_LINK_RE.finditer(line)\<close>: the scan from left to right, \<open>prev\<close> being the
  character before the current position (none at the start of the line).  A match is
  refused after an exclamation mark; the scan goes on behind a match.
\<close>

function find_links :: "char option \<Rightarrow> string \<Rightarrow> string list" where
  "find_links prev [] = []"
| "find_links prev (c # cs) =
     (if prev = Some (CHR ''!'') then find_links (Some c) cs
      else (case link_match_at (c # cs) of
              Some (tgt, rest) \<Rightarrow> tgt # find_links (Some (CHR '')'')) rest
            | None \<Rightarrow> find_links (Some c) cs))"
  by pat_completeness auto
termination
  by (relation "measure (\<lambda>(prev, s). length s)") (auto dest: link_match_at_shorter)

text \<open>The target of a match, as \<^verbatim>\<open>extract_links\<close> trims it.\<close>

definition link_target :: "string \<Rightarrow> string" where
  "link_target g =
     (let t0 = strip g;
          t1 = (if CHR '' '' \<in> set t0 \<and> \<not> startswith t0 ''<''
                then takeWhile (\<lambda>c. c \<noteq> CHR '' '') t0 else t0)
      in if startswith t1 ''<'' \<and> endswith t1 ''>'' then butlast (tl t1) else t1)"

definition links_step :: "nat \<times> string \<Rightarrow> link_ref list \<times> bool \<Rightarrow> link_ref list \<times> bool" where
  "links_step = (\<lambda>(line_no, line') (acc, fenced).
     if is_fence line' then (acc, \<not> fenced)
     else if fenced then (acc, fenced)
     else (acc @ map (\<lambda>g. LinkRef (link_target g) line_no) (find_links None line'), fenced))"

definition links_loop :: "nat \<Rightarrow> string list \<Rightarrow> link_ref list \<times> bool \<Rightarrow> link_ref list \<times> bool" where
  "links_loop n ls st = fold links_step (List.enumerate n ls) st"

definition links_of_lines :: "nat \<Rightarrow> string list \<Rightarrow> link_ref list" where
  "links_of_lines n ls = fst (links_loop n ls ([], False))"

definition extract_links :: "string \<Rightarrow> link_ref list" where
  "extract_links body0 = links_of_lines 1 (splitlines body0)"

section \<open>The metadata parser\<close>

definition FRONTMATTER_DELIM :: string where
  "FRONTMATTER_DELIM = ''---''"

definition strip_quotes :: "string \<Rightarrow> string" where
  "strip_quotes value0 =
     (let v = strip value0
      in if 2 \<le> length v \<and> hd v = last v \<and> (hd v = CHR 0x27 \<or> hd v = CHR 0x22)
         then butlast (tl v) else v)"

definition parse_scalar :: "string \<Rightarrow> scalar" where
  "parse_scalar value0 =
     (let v = strip value0
      in if v = [] then SStr []
         else if lower v = ''true'' then SBool True
         else if lower v = ''false'' then SBool False
         else SStr (strip_quotes v))"

text \<open>
  The loop of \<^verbatim>\<open>parse_inline_list\<close> over the characters between the brackets: the
  finished items, the buffer and the open quote, and after the last character the check
  \<^verbatim>\<open>if buf\<close>.
\<close>

fun inline_items :: "string list \<Rightarrow> string \<Rightarrow> char option \<Rightarrow> string \<Rightarrow> string list" where
  "inline_items items buf quote [] = (if buf \<noteq> [] then items @ [strip buf] else items)"
| "inline_items items buf quote (ch # rest) =
     (case quote of
        Some q \<Rightarrow> inline_items items (buf @ [ch]) (if ch = q then None else quote) rest
      | None \<Rightarrow>
          (if ch = CHR 0x27 \<or> ch = CHR 0x22 then inline_items items (buf @ [ch]) (Some ch) rest
           else if ch = CHR '','' then inline_items (items @ [strip buf]) [] None rest
           else inline_items items (buf @ [ch]) None rest))"

definition parse_inline_list :: "string \<Rightarrow> scalar list" where
  "parse_inline_list value0 =
     (let inner = strip (butlast (tl value0))
      in if inner = [] then []
         else map parse_scalar (filter (\<lambda>item. strip item \<noteq> []) (inline_items [] [] None inner)))"

text \<open>
  The three patterns of \<^verbatim>\<open>parse_yamlish_frontmatter\<close>, each applied with \<^verbatim>\<open>re.match\<close> to
  a line without line feed: \<^verbatim>\<open>^\s*#.*$\<close>, \<^verbatim>\<open>^\s*-\s+(.*)$\<close> with its group, and
  \<^verbatim>\<open>^([A-Za-z0-9_-]+):\s*(.*)$\<close> with its two groups.
\<close>

definition comment_match :: "string \<Rightarrow> bool" where
  "comment_match line' = startswith (dropWhile isspace line') ''#''"

definition list_item_match :: "string \<Rightarrow> string option" where
  "list_item_match line' =
     (case dropWhile isspace line' of
        [] \<Rightarrow> None
      | c # rest \<Rightarrow>
          (if c = CHR ''-'' \<and> rest \<noteq> [] \<and> isspace (hd rest)
           then Some (dropWhile isspace rest) else None))"

definition key_match :: "string \<Rightarrow> (string \<times> string) option" where
  "key_match line' =
     (let key = takeWhile is_name_char line'; rest = dropWhile is_name_char line'
      in if key \<noteq> [] \<and> rest \<noteq> [] \<and> hd rest = CHR '':''
         then Some (key, dropWhile isspace (tl rest)) else None)"

record parse_state =
  p_data :: frontmatter_dict
  p_errors :: "string list"
  p_current_list_key :: "string option"

definition parse_init :: parse_state where
  "parse_init = \<lparr>p_data = [], p_errors = [], p_current_list_key = None\<rparr>"

definition orphan_error :: "nat \<Rightarrow> string" where
  "orphan_error idx = ''frontmatter line '' @ str_nat idx @ '': list item without list key''"

definition unsupported_error :: "nat \<Rightarrow> string \<Rightarrow> string" where
  "unsupported_error idx line' =
     ''frontmatter line '' @ str_nat idx @ '': unsupported syntax `'' @ line' @ ''`''"

text \<open>One turn of the loop of \<^verbatim>\<open>parse_yamlish_frontmatter\<close>.\<close>

definition parse_step :: "nat \<times> string \<Rightarrow> parse_state \<Rightarrow> parse_state" where
  "parse_step = (\<lambda>(idx, raw_line) st.
     (let line' = rstrip raw_line
      in if strip line' = [] then st
         else if comment_match line' then st
         else (case list_item_match line' of
                 Some item \<Rightarrow>
                   (case p_current_list_key st of
                      None \<Rightarrow> st\<lparr>p_errors := p_errors st @ [orphan_error idx]\<rparr>
                    | Some k \<Rightarrow>
                        (case map_of (p_data st) k of
                           Some (FList xs) \<Rightarrow>
                             st\<lparr>p_data := AList.update k (FList (xs @ [parse_scalar item])) (p_data st)\<rparr>
                         | _ \<Rightarrow> st\<lparr>p_errors := p_errors st @ [orphan_error idx]\<rparr>))
               | None \<Rightarrow>
                   (case key_match line' of
                      None \<Rightarrow>
                        st\<lparr>p_errors := p_errors st @ [unsupported_error idx line'],
                           p_current_list_key := None\<rparr>
                    | Some (key, v) \<Rightarrow>
                        (if v = []
                         then st\<lparr>p_data := AList.update key (FList []) (p_data st),
                                 p_current_list_key := Some key\<rparr>
                         else if startswith v ''['' \<and> endswith v '']''
                         then st\<lparr>p_data := AList.update key (FList (parse_inline_list v)) (p_data st),
                                 p_current_list_key := None\<rparr>
                         else st\<lparr>p_data := AList.update key (Scalar (parse_scalar v)) (p_data st),
                                 p_current_list_key := None\<rparr>)))))"

definition parse_loop :: "nat \<Rightarrow> string list \<Rightarrow> parse_state \<Rightarrow> parse_state" where
  "parse_loop n ls st = fold parse_step (List.enumerate n ls) st"

definition parse_lines :: "string list \<Rightarrow> frontmatter_dict \<times> string list" where
  "parse_lines ls = (let st = parse_loop 1 ls parse_init in (p_data st, p_errors st))"

definition parse_yamlish_frontmatter :: "string \<Rightarrow> frontmatter_dict \<times> string list" where
  "parse_yamlish_frontmatter raw = parse_lines (splitlines raw)"

text \<open>
  The key of a key line: a line that is not blank, no comment and no list item, and that
  matches the key pattern.
\<close>

definition key_of_line :: "string \<Rightarrow> string option" where
  "key_of_line raw_line =
     (let line' = rstrip raw_line
      in if strip line' = [] \<or> comment_match line' \<or> list_item_match line' \<noteq> None then None
         else map_option fst (key_match line'))"

text \<open>
  \<^verbatim>\<open>split_frontmatter\<close>.  \<open>find_end_idx i ls\<close> is the search for the closing delimiter
  among the lines \<open>ls\<close>, the first of which has index \<open>i\<close>.
\<close>

fun find_end_idx :: "nat \<Rightarrow> string list \<Rightarrow> nat option" where
  "find_end_idx i [] = None"
| "find_end_idx i (l # ls) =
     (if strip l = FRONTMATTER_DELIM then Some i else find_end_idx (Suc i) ls)"

definition split_frontmatter :: "string \<Rightarrow> frontmatter_dict \<times> string \<times> string list" where
  "split_frontmatter text0 =
     (if \<not> startswith text0 FRONTMATTER_DELIM
      then ([], text0, [''missing frontmatter start delimiter''])
      else (let lines = splitlines text0
            in if lines = [] \<or> strip (hd lines) \<noteq> FRONTMATTER_DELIM
               then ([], text0, [''invalid frontmatter start delimiter''])
               else (case find_end_idx 1 (drop 1 lines) of
                       None \<Rightarrow> ([], text0, [''missing frontmatter end delimiter''])
                     | Some end_idx \<Rightarrow>
                         (let raw_frontmatter = join nl (drop 1 (take end_idx lines));
                              body0 = join nl (drop (end_idx + 1) lines);
                              (fm, fm_errors) = parse_yamlish_frontmatter raw_frontmatter
                          in (fm, body0, fm_errors)))))"

text \<open>
  The value a key line stores for its key, from group 2 of the key pattern: an empty list
  for a bare key, the inline list for a bracketed value, the scalar otherwise.  A line is
  skipped when it is blank or a comment.
\<close>

definition key_line_value :: "string \<Rightarrow> fmvalue" where
  "key_line_value v =
     (if v = [] then FList []
      else if startswith v ''['' \<and> endswith v '']'' then FList (parse_inline_list v)
      else Scalar (parse_scalar v))"

definition skip_line :: "string \<Rightarrow> bool" where
  "skip_line m = (strip (rstrip m) = [] \<or> comment_match (rstrip m))"

text \<open>
  Two relations on states of the parser loop, for the proof that the last key line decides
  the value of its key: both states agree on the open list key and on the value of \<open>k\<close>;
  the value of \<open>k\<close> is \<open>x\<close> and \<open>k\<close> is not the open list key.
\<close>

definition same_for :: "string \<Rightarrow> parse_state \<Rightarrow> parse_state \<Rightarrow> bool" where
  "same_for k s s' =
     (p_current_list_key s = p_current_list_key s' \<and> map_of (p_data s) k = map_of (p_data s') k)"

definition settled :: "string \<Rightarrow> fmvalue option \<Rightarrow> parse_state \<Rightarrow> bool" where
  "settled k x s = (p_current_list_key s \<noteq> Some k \<and> map_of (p_data s) k = x)"

section \<open>Paths, the contract file and the world outside\<close>

text \<open>
  Failures of the interpreter are values: \<^verbatim>\<open>ValueError\<close> (a date or a number that does not
  parse, \<^verbatim>\<open>relative_to\<close> on a path outside the base, \<^verbatim>\<open>with_suffix\<close> on a path without
  name), \<^verbatim>\<open>IndexError\<close> and \<^verbatim>\<open>OSError\<close> (a file that cannot be read).
\<close>

datatype error = ValueError | IndexError | OSError

text \<open>\<^verbatim>\<open>str.split(sep)\<close> for a separator of one character.\<close>

fun split_on :: "char \<Rightarrow> string \<Rightarrow> string list" where
  "split_on sep [] = [[]]"
| "split_on sep (c # cs) =
     (if c = sep then [] # split_on sep cs
      else (case split_on sep cs of [] \<Rightarrow> [[c]] | l # ls \<Rightarrow> (c # l) # ls))"

text \<open>
  \<^verbatim>\<open>pathlib\<close> on POSIX: a path string is cut at the slashes, empty components and single
  dots are dropped, double dots are kept.  \<open>joinpath base s\<close> is \<^verbatim>\<open>base / s\<close>.
\<close>

definition parse_parts :: "string \<Rightarrow> string list" where
  "parse_parts s = filter (\<lambda>p. p \<noteq> [] \<and> p \<noteq> ''.'') (split_on (CHR ''/'') s)"

definition joinpath :: "path \<Rightarrow> string \<Rightarrow> path" where
  "joinpath base s = (if startswith s ''/'' then parse_parts s else base @ parse_parts s)"

definition parent :: "path \<Rightarrow> path" where
  "parent p = butlast p"

definition name_of :: "path \<Rightarrow> string" where
  "name_of p = (if p = [] then [] else last p)"

text \<open>
  \<^verbatim>\<open>PurePath.suffix\<close>: the name from its last dot on, when that dot is neither the first nor
  the last character of the name.
\<close>

definition suffix_of_name :: "string \<Rightarrow> string" where
  "suffix_of_name nm =
     (if CHR ''.'' \<notin> set nm then []
      else (let i = length nm - length (takeWhile (\<lambda>c. c \<noteq> CHR ''.'') (rev nm)) - 1
            in if 0 < i \<and> i < length nm - 1 then drop i nm else []))"

definition path_suffix :: "path \<Rightarrow> string" where
  "path_suffix p = suffix_of_name (name_of p)"

definition with_suffix :: "path \<Rightarrow> string \<Rightarrow> error + path" where
  "with_suffix p suf =
     (let nm = name_of p
      in if nm = [] then Inl ValueError
         else (let old = suffix_of_name nm;
                   nm' = (if old = [] then nm @ suf else take (length nm - length old) nm @ suf)
               in Inr (butlast p @ [nm'])))"

definition str_of_path :: "path \<Rightarrow> string" where
  "str_of_path p = ''/'' @ join ''/'' p"

definition relative_to :: "path \<Rightarrow> path \<Rightarrow> error + path" where
  "relative_to p base =
     (if take (length base) p = base then Inr (drop (length base) p) else Inl ValueError)"

definition as_posix :: "path \<Rightarrow> string" where
  "as_posix parts = (if parts = [] then ''.'' else join ''/'' parts)"

text \<open>
  The contract file \<^verbatim>\<open>tools/docs/doc_contracts.json\<close> is not among the sources.  Its keys
  are those the validator reads with \<^verbatim>\<open>contracts.get\<close>; a key may be absent, and the
  types are the ones the validator's use of each value needs (lists of strings, a mapping
  from folder to category, an integer).
\<close>

record contracts =
  required_docs_directories :: "string list option"
  required_frontmatter :: "string list option"
  allowed_categories :: "string list option"
  allowed_statuses :: "string list option"
  allowed_owners :: "string list option"
  diataxis_category_by_folder :: "(string \<times> string) list option"
  root_docs_allowed_categories :: "string list option"
  stale_review_days :: "int option"
  sop_required_headings :: "string list option"

definition get_or :: "'a \<Rightarrow> 'a option \<Rightarrow> 'a" where
  "get_or d x = (case x of None \<Rightarrow> d | Some v \<Rightarrow> v)"

text \<open>The result of a subprocess: return code, standard output, standard error.\<close>

record proc_result =
  returncode :: int
  stdout :: string
  stderr :: string

text \<open>What \<^verbatim>\<open>json.load\<close> tells the validator: a failure with its message, or the top-level value.\<close>

datatype json_top = JsonObject "string list" | JsonOther

text \<open>
  Everything the validator asks of its surroundings is a field of the world: the
  repository root (\<^verbatim>\<open>repo_root()\<close>), the file system (\<^verbatim>\<open>exists\<close>, \<^verbatim>\<open>resolve\<close>,
  \<^verbatim>\<open>is_file\<close>, the three sorted \<^verbatim>\<open>rglob\<close> listings, \<^verbatim>\<open>read_text\<close>), the environment
  variables, the clock (a date is its proleptic Gregorian ordinal, so that the difference
  of two dates in days is the difference of the numbers), the standard library's
  \<^verbatim>\<open>date.fromisoformat\<close>, the tools found by \<^verbatim>\<open>shutil.which\<close> and what they return, and the
  floating-point expression \<^verbatim>\<open>round(fresh / total * 100.0, 2)\<close>.
\<close>

record world =
  repo_root :: path
  fs_exists :: "path \<Rightarrow> bool"
  fs_resolve :: "path \<Rightarrow> path"
  fs_is_file :: "path \<Rightarrow> bool"
  rglob_md :: "path list"
  rglob_mmd :: "path list"
  rglob_openapi :: "path list"
  read_text :: "path \<Rightarrow> error + string"
  environ :: "(string \<times> string) list"
  date_today :: int
  utc_now :: string
  fromisoformat :: "string \<Rightarrow> int option"
  which :: "string \<Rightarrow> bool"
  run_mmdc :: "string \<Rightarrow> proc_result"
  run_swagger_cli :: "path \<Rightarrow> proc_result"
  json_load :: "path \<Rightarrow> string + json_top"
  round_percent :: "nat \<Rightarrow> nat \<Rightarrow> real"

definition docs_root :: "world \<Rightarrow> path" where
  "docs_root w = repo_root w @ [''docs'']"

section \<open>The document collector\<close>

text \<open>The loop of \<^verbatim>\<open>collect_docs\<close> over the sorted listing.\<close>

fun collect_loop :: "world \<Rightarrow> path list \<Rightarrow> error + (doc_record list \<times> problem list)" where
  "collect_loop w [] = Inr ([], [])"
| "collect_loop w (p # ps) =
     (if \<not> fs_is_file w p then collect_loop w ps
      else (case read_text w p of
              Inl e \<Rightarrow> Inl e
            | Inr text0 \<Rightarrow>
                (case split_frontmatter text0 of
                   (fm, body0, fm_errors) \<Rightarrow>
                     (case relative_to p (repo_root w) of
                        Inl e \<Rightarrow> Inl e
                      | Inr rp \<Rightarrow>
                          (let rel = as_posix rp;
                               ha = extract_headings_and_anchors body0;
                               record =
                                 \<lparr>path = p, rel_path = rel, doc_text = text0, frontmatter = fm,
                                  body = body0, headings = fst ha, anchors = snd ha,
                                  links = extract_links body0\<rparr>
                           in (case collect_loop w ps of
                                 Inl e \<Rightarrow> Inl e
                               | Inr (records, problems0) \<Rightarrow>
                                   Inr (record # records,
                                        map (\<lambda>err. Problem ''frontmatter'' rel err None) fm_errors
                                          @ problems0)))))))"

definition collect_docs :: "world \<Rightarrow> error + (doc_record list \<times> problem list)" where
  "collect_docs w = collect_loop w (rglob_md w)"

section \<open>The structure check\<close>

definition validate_structure :: "world \<Rightarrow> contracts \<Rightarrow> problem list" where
  "validate_structure w c =
     map (\<lambda>dirname. Problem ''structure'' (''docs/'' @ dirname) ''required directory is missing'' None)
       (filter (\<lambda>dirname. \<not> fs_exists w (joinpath (docs_root w) dirname))
          (get_or [] (required_docs_directories c)))"

section \<open>Built-ins used by the metadata check\<close>

text \<open>
  \<^verbatim>\<open>int(s)\<close> for a string: white space around the number is dropped (the white space
  of C and, above U+007F, that of \<^verbatim>\<open>str.isspace\<close>), then come an optional sign and
  decimal digits, with single underscores allowed between digits.
\<close>

definition is_int_space :: "char \<Rightarrow> bool" where
  "is_int_space c =
     (let n = (of_char c :: nat) in (9 \<le> n \<and> n \<le> 13) \<or> n = 32 \<or> n = 133 \<or> n = 160)"

fun digits_value :: "int \<Rightarrow> string \<Rightarrow> int option" where
  "digits_value acc [] = Some acc"
| "digits_value acc [c] =
     (if is_ascii_digit c then Some (10 * acc + (of_char c - 48)) else None)"
| "digits_value acc (c # d # cs) =
     (if is_ascii_digit c
      then (if d = CHR ''_'' then (if cs = [] then None else digits_value (10 * acc + (of_char c - 48)) cs)
            else digits_value (10 * acc + (of_char c - 48)) (d # cs))
      else None)"

definition py_int :: "string \<Rightarrow> int option" where
  "py_int s =
     (let t = dropWhile is_int_space (rev (dropWhile is_int_space (rev s)));
          neg = startswith t ''-'';
          ds = (if startswith t ''-'' \<or> startswith t ''+'' then tl t else t)
      in if ds = [] then None
         else (case digits_value 0 ds of
                 None \<Rightarrow> None
               | Some n \<Rightarrow> Some (if neg then - n else n)))"

text \<open>
  \<^verbatim>\<open>repr(s)\<close> of a string, as an f-string prints the elements of a list: double quotes
  when the string holds a single quote and no double quote, single quotes otherwise;
  backslash and the chosen quote escaped; tab, line feed and carriage return by letter;
  the other characters outside the printable ones by their two hexadecimal digits.
\<close>

definition hex_digit :: "nat \<Rightarrow> char" where
  "hex_digit n = (if n < 10 then char_of (48 + n) else char_of (87 + n))"

definition is_printable :: "char \<Rightarrow> bool" where
  "is_printable c =
     (let n = (of_char c :: nat) in (32 \<le> n \<and> n \<le> 126) \<or> (161 \<le> n \<and> n \<noteq> 173))"

definition repr_char :: "char \<Rightarrow> char \<Rightarrow> string" where
  "repr_char quote c =
     (if c = quote \<or> c = CHR 0x5C then [CHR 0x5C, c]
      else if c = CHR 0x09 then [CHR 0x5C, CHR ''t'']
      else if c = CHR 0x0A then [CHR 0x5C, CHR ''n'']
      else if c = CHR 0x0D then [CHR 0x5C, CHR ''r'']
      else if is_printable c then [c]
      else [CHR 0x5C, CHR ''x'', hex_digit (of_char c div 16), hex_digit (of_char c mod 16)])"

definition py_repr :: "string \<Rightarrow> string" where
  "py_repr s =
     (let quote = (if CHR 0x27 \<in> set s \<and> CHR 0x22 \<notin> set s then CHR 0x22 else CHR 0x27)
      in [quote] @ concat (map (repr_char quote) s) @ [quote])"

definition str_of_str_list :: "string list \<Rightarrow> string" where
  "str_of_str_list xs = ''['' @ join '', '' (map py_repr xs) @ '']''"

definition str_of_scalar_item :: "scalar \<Rightarrow> string" where
  "str_of_scalar_item v =
     (case v of SStr s \<Rightarrow> py_repr s | SBool b \<Rightarrow> (if b then ''True'' else ''False''))"

text \<open>\<^verbatim>\<open>str(fm.get(key))\<close>, as an f-string prints a metadata value or \<^verbatim>\<open>None\<close>.\<close>

definition str_of_value :: "fmvalue option \<Rightarrow> string" where
  "str_of_value v =
     (case v of
        None \<Rightarrow> ''None''
      | Some (Scalar (SStr s)) \<Rightarrow> s
      | Some (Scalar (SBool b)) \<Rightarrow> (if b then ''True'' else ''False'')
      | Some (FList xs) \<Rightarrow> ''['' @ join '', '' (map str_of_scalar_item xs) @ '']'')"

text \<open>\<^verbatim>\<open>sorted(set(xs))\<close> for strings: by code points, each string once.\<close>

definition sorted_set :: "string list \<Rightarrow> string list" where
  "sorted_set xs = sort (remdups xs)"

section \<open>The metadata check\<close>

definition stale_days_of :: "world \<Rightarrow> contracts \<Rightarrow> error + int" where
  "stale_days_of w c =
     (case map_of (environ w) ''DOCS_STALE_REVIEW_DAYS'' of
        None \<Rightarrow> Inr (get_or 180 (stale_review_days c))
      | Some s \<Rightarrow> (case py_int s of None \<Rightarrow> Inl ValueError | Some n \<Rightarrow> Inr n))"

definition current_date :: "world \<Rightarrow> error + int" where
  "current_date w =
     (case map_of (environ w) ''DOCS_TODAY'' of
        None \<Rightarrow> Inr (date_today w)
      | Some override \<Rightarrow>
          (if override \<noteq> []
           then (case fromisoformat w override of None \<Rightarrow> Inl ValueError | Some d \<Rightarrow> Inr d)
           else Inr (date_today w)))"

definition parse_review_date :: "world \<Rightarrow> string \<Rightarrow> int option" where
  "parse_review_date w v = fromisoformat w v"

text \<open>The value of a key when it is a string, and when it is a list.\<close>

definition fm_str :: "frontmatter_dict \<Rightarrow> string \<Rightarrow> string option" where
  "fm_str fm k = (case map_of fm k of Some (Scalar (SStr s)) \<Rightarrow> Some s | _ \<Rightarrow> None)"

definition fm_list :: "frontmatter_dict \<Rightarrow> string \<Rightarrow> scalar list option" where
  "fm_list fm k = (case map_of fm k of Some (FList xs) \<Rightarrow> Some xs | _ \<Rightarrow> None)"

definition missing_field_problems :: "string list \<Rightarrow> doc_record \<Rightarrow> problem list" where
  "missing_field_problems required_fields record =
     map (\<lambda>field. Problem ''frontmatter'' (rel_path record)
                     (''missing required field `'' @ field @ ''`'') None)
       (filter (\<lambda>field. map_of (frontmatter record) field = None) required_fields)"

definition title_problems :: "doc_record \<Rightarrow> problem list" where
  "title_problems record =
     (case fm_str (frontmatter record) ''title'' of
        Some t \<Rightarrow>
          (if strip t = []
           then [Problem ''frontmatter'' (rel_path record) ''`title` must be a non-empty string'' None]
           else [])
      | None \<Rightarrow> [Problem ''frontmatter'' (rel_path record) ''`title` must be a non-empty string'' None])"

text \<open>The shared shape of the checks of \<^verbatim>\<open>category\<close>, \<^verbatim>\<open>owner\<close> and \<^verbatim>\<open>status\<close>.\<close>

definition one_of_problems :: "string \<Rightarrow> string list \<Rightarrow> doc_record \<Rightarrow> problem list" where
  "one_of_problems key allowed record =
     (if (case fm_str (frontmatter record) key of None \<Rightarrow> True | Some v \<Rightarrow> v \<notin> set allowed)
      then [Problem ''frontmatter'' (rel_path record)
              (''`'' @ key @ ''` must be one of '' @ str_of_str_list (sorted_set allowed)) None]
      else [])"

definition superseded_problems :: "doc_record \<Rightarrow> problem list" where
  "superseded_problems record =
     (if fm_str (frontmatter record) ''status'' = Some ''superseded''
         \<and> fm_str (frontmatter record) ''superseded_by'' = None
      then [Problem ''frontmatter'' (rel_path record)
              ''`superseded` docs must declare `superseded_by`'' None]
      else [])"

definition str_of_int :: "int \<Rightarrow> string" where
  "str_of_int i = (if i < 0 then ''-'' @ str_nat (nat (- i)) else str_nat (nat i))"

definition stale_message :: "int \<Rightarrow> int \<Rightarrow> string" where
  "stale_message age_days stale_days =
     ''`last_reviewed` is stale ('' @ str_of_int age_days @ '' days > '' @ str_of_int stale_days @ '')''"

definition reviewed_problems :: "world \<Rightarrow> int \<Rightarrow> int \<Rightarrow> doc_record \<Rightarrow> problem list" where
  "reviewed_problems w stale_days today record =
     (case fm_str (frontmatter record) ''last_reviewed'' of
        None \<Rightarrow>
          [Problem ''frontmatter'' (rel_path record) ''`last_reviewed` must be an ISO date string'' None]
      | Some reviewed \<Rightarrow>
          (case parse_review_date w reviewed of
             None \<Rightarrow>
               [Problem ''frontmatter'' (rel_path record) ''`last_reviewed` is not a valid ISO date'' None]
           | Some review_date \<Rightarrow>
               (let age_days = today - review_date
                in if age_days > stale_days
                   then [Problem ''frontmatter'' (rel_path record) (stale_message age_days stale_days) None]
                   else [])))"

definition is_nonempty_str :: "scalar \<Rightarrow> bool" where
  "is_nonempty_str v = (case v of SStr s \<Rightarrow> strip s \<noteq> [] | SBool b \<Rightarrow> False)"

definition list_field_problems :: "string \<Rightarrow> doc_record \<Rightarrow> problem list" where
  "list_field_problems list_field record =
     (case fm_list (frontmatter record) list_field of
        None \<Rightarrow>
          [Problem ''frontmatter'' (rel_path record) (''`'' @ list_field @ ''` must be a non-empty list'') None]
      | Some v \<Rightarrow>
          (if v = []
           then [Problem ''frontmatter'' (rel_path record)
                   (''`'' @ list_field @ ''` must be a non-empty list'') None]
           else if \<not> list_all is_nonempty_str v
           then [Problem ''frontmatter'' (rel_path record)
                   (''`'' @ list_field @ ''` must contain non-empty strings'') None]
           else []))"

text \<open>
  \<^verbatim>\<open>re.match(r"ADR-\d{4}[-_a-zA-Z0-9]*\.md$", name)\<close>; the dollar also matches before a
  line feed that ends the name.
\<close>

definition adr_name_match :: "string \<Rightarrow> bool" where
  "adr_name_match nm =
     (startswith nm ''ADR-'' \<and>
      (let r = drop 4 nm
       in 4 \<le> length r \<and> list_all is_ascii_digit (take 4 r) \<and>
          (let t = dropWhile is_name_char (drop 4 r) in t = ''.md'' \<or> t = ''.md'' @ nl)))"

definition taxonomy_problems :: "world \<Rightarrow> contracts \<Rightarrow> doc_record \<Rightarrow> error + problem list" where
  "taxonomy_problems w c record =
     (case relative_to (path record) (docs_root w) of
        Inl e \<Rightarrow> Inl e
      | Inr rel_doc \<Rightarrow>
          (let category = map_of (frontmatter record) ''category'';
               root_allowed = get_or [] (root_docs_allowed_categories c)
           in if length rel_doc = 1
              then Inr (case fm_str (frontmatter record) ''category'' of
                          None \<Rightarrow> []
                        | Some cat \<Rightarrow>
                            (if cat \<notin> set root_allowed
                             then [Problem ''diataxis'' (rel_path record)
                                     (''root docs page category `'' @ cat @ ''` not allowed; expected one of ''
                                        @ str_of_str_list (sorted_set root_allowed)) None]
                             else []))
              else (case rel_doc of
                      [] \<Rightarrow> Inl IndexError
                    | folder # _ \<Rightarrow>
                        Inr ((case map_of (get_or [] (diataxis_category_by_folder c)) folder of
                                None \<Rightarrow> []
                              | Some expected \<Rightarrow>
                                  (if expected \<noteq> [] \<and> category \<noteq> Some (Scalar (SStr expected))
                                   then [Problem ''diataxis'' (rel_path record)
                                           (''category `'' @ str_of_value category
                                              @ ''` does not match folder `'' @ folder
                                              @ ''` -> `'' @ expected @ ''`'') None]
                                   else []))
                             @ (if folder = ''adr'' \<and> \<not> adr_name_match (name_of (path record))
                                then [Problem ''adr'' (rel_path record)
                                        ''ADR filename must match ADR-0000-name.md'' None]
                                else [])))))"

text \<open>The body of the loop of \<^verbatim>\<open>validate_frontmatter\<close> for one record.\<close>

definition frontmatter_record_problems ::
    "world \<Rightarrow> contracts \<Rightarrow> int \<Rightarrow> int \<Rightarrow> doc_record \<Rightarrow> error + problem list" where
  "frontmatter_record_problems w c stale_days today record =
     (let missing = missing_field_problems (get_or [] (required_frontmatter c)) record
      in if frontmatter record = [] then Inr missing
         else (case taxonomy_problems w c record of
                 Inl e \<Rightarrow> Inl e
               | Inr taxonomy \<Rightarrow>
                   Inr (missing
                        @ title_problems record
                        @ one_of_problems ''category'' (get_or [] (allowed_categories c)) record
                        @ one_of_problems ''owner'' (get_or [] (allowed_owners c)) record
                        @ one_of_problems ''status'' (get_or [] (allowed_statuses c)) record
                        @ superseded_problems record
                        @ reviewed_problems w stale_days today record
                        @ list_field_problems ''audience'' record
                        @ list_field_problems ''invariants'' record
                        @ taxonomy)))"

text \<open>A loop over the records whose body may fail: the first failure ends it.\<close>

fun for_records ::
    "(doc_record \<Rightarrow> error + problem list) \<Rightarrow> doc_record list \<Rightarrow> error + problem list" where
  "for_records f [] = Inr []"
| "for_records f (r # rs) =
     (case f r of
        Inl e \<Rightarrow> Inl e
      | Inr ps \<Rightarrow> (case for_records f rs of Inl e \<Rightarrow> Inl e | Inr qs \<Rightarrow> Inr (ps @ qs)))"

definition validate_frontmatter :: "world \<Rightarrow> doc_record list \<Rightarrow> contracts \<Rightarrow> error + problem list" where
  "validate_frontmatter w records c =
     (case stale_days_of w c of
        Inl e \<Rightarrow> Inl e
      | Inr stale_days \<Rightarrow>
          (case current_date w of
             Inl e \<Rightarrow> Inl e
           | Inr today \<Rightarrow> for_records (frontmatter_record_problems w c stale_days today) records))"

section \<open>The heading-order check\<close>

definition normalize_heading :: "string \<Rightarrow> string" where
  "normalize_heading v = sub_space_runs '' '' (strip v)"

text \<open>\<^verbatim>\<open>xs.index(x, pos)\<close>: the first index from \<open>pos\<close> on that holds \<open>x\<close>, if there is one.\<close>

fun first_index :: "'a list \<Rightarrow> 'a \<Rightarrow> nat option" where
  "first_index [] x = None"
| "first_index (y # ys) x = (if y = x then Some 0 else map_option Suc (first_index ys x))"

definition index_from :: "'a list \<Rightarrow> 'a \<Rightarrow> nat \<Rightarrow> nat option" where
  "index_from xs x pos = map_option (\<lambda>i. pos + i) (first_index (drop pos xs) x)"

text \<open>
  The inner loop of \<^verbatim>\<open>validate_sop_headings\<close>: the required heading at which the search
  fails, if any.
\<close>

fun sop_scan :: "string list \<Rightarrow> nat \<Rightarrow> string list \<Rightarrow> string option" where
  "sop_scan hs pos [] = None"
| "sop_scan hs pos (req # reqs) =
     (case index_from hs req pos of
        None \<Rightarrow> Some req
      | Some found_at \<Rightarrow> sop_scan hs (found_at + 1) reqs)"

definition sop_record_problems :: "world \<Rightarrow> string list \<Rightarrow> doc_record \<Rightarrow> error + problem list" where
  "sop_record_problems w required record =
     (case relative_to (path record) (docs_root w) of
        Inl e \<Rightarrow> Inl e
      | Inr rel_doc \<Rightarrow>
          (if rel_doc = [] \<or> hd rel_doc \<noteq> ''sop'' then Inr []
           else (case sop_scan (map normalize_heading (headings record)) 0 required of
                   None \<Rightarrow> Inr []
                 | Some req \<Rightarrow>
                     Inr [Problem ''sop'' (rel_path record)
                            (''missing or out-of-order heading `'' @ req @ ''`'') None])))"

definition validate_sop_headings :: "world \<Rightarrow> doc_record list \<Rightarrow> contracts \<Rightarrow> error + problem list" where
  "validate_sop_headings w records c =
     for_records
       (sop_record_problems w (map normalize_heading (get_or [] (sop_required_headings c))))
       records"

section \<open>The link check\<close>

text \<open>\<^verbatim>\<open>SCHEME_RE = ^[a-zA-Z][a-zA-Z0-9+.-]*:\<close>, applied with \<^verbatim>\<open>match\<close>.\<close>

definition is_scheme_char :: "char \<Rightarrow> bool" where
  "is_scheme_char c =
     (is_ascii_upper c \<or> is_ascii_lower c \<or> is_ascii_digit c
      \<or> c = CHR ''+'' \<or> c = CHR ''.'' \<or> c = CHR ''-'')"

definition scheme_match :: "string \<Rightarrow> bool" where
  "scheme_match s =
     (case s of
        [] \<Rightarrow> False
      | c # cs \<Rightarrow>
          (is_ascii_upper c \<or> is_ascii_lower c) \<and> startswith (dropWhile is_scheme_char cs) '':'')"

text \<open>\<^verbatim>\<open>value or None\<close> for a string.\<close>

definition or_none :: "string \<Rightarrow> string option" where
  "or_none s = (if s = [] then None else Some s)"

text \<open>
  \<^verbatim>\<open>resolve_markdown_link\<close>: the resolved path, the anchor and the reason to skip the
  link.  \<open>path_part\<close> and \<open>anchor\<close> are the two sides of \<^verbatim>\<open>target.partition("#")\<close>.
\<close>

definition resolve_markdown_link ::
    "world \<Rightarrow> doc_record \<Rightarrow> string \<Rightarrow> error + (path option \<times> string option \<times> string option)" where
  "resolve_markdown_link w record tgt =
     (if tgt = [] \<or> startswith tgt ''?'' then Inr (None, None, Some ''query-only link'')
      else if scheme_match tgt then Inr (None, None, Some ''external link'')
      else if startswith tgt ''//'' then Inr (None, None, Some ''network-path link'')
      else (let path_part = takeWhile (\<lambda>c. c \<noteq> CHR ''#'') tgt;
                anchor = drop 1 (dropWhile (\<lambda>c. c \<noteq> CHR ''#'') tgt)
            in if path_part \<noteq> [] \<and> CHR ''?'' \<in> set path_part
               then Inr (None, or_none anchor, Some ''route/query link'')
               else if startswith path_part ''/'' \<and> \<not> startswith path_part ''/docs/''
               then Inr (None, or_none anchor, Some ''site route'')
               else if path_part = [] then Inr (Some (path record), or_none anchor, None)
               else (let resolved =
                       (if startswith path_part ''/docs/''
                        then joinpath (repo_root w) (dropWhile (\<lambda>c. c = CHR ''/'') path_part)
                        else if startswith path_part ''/''
                        then joinpath (repo_root w) (dropWhile (\<lambda>c. c = CHR ''/'') path_part)
                        else fs_resolve w (joinpath (parent (path record)) path_part))
                     in if fs_exists w resolved then Inr (Some resolved, or_none anchor, None)
                        else if path_suffix resolved = []
                        then (case with_suffix resolved ''.md'' of
                                Inl e \<Rightarrow> Inl e
                              | Inr md_candidate \<Rightarrow>
                                  (if fs_exists w md_candidate
                                   then Inr (Some md_candidate, or_none anchor, None)
                                   else (let index_candidate = resolved @ [''index.md'']
                                         in if fs_exists w index_candidate
                                            then Inr (Some index_candidate, or_none anchor, None)
                                            else Inr (Some resolved, or_none anchor, None))))
                        else Inr (Some resolved, or_none anchor, None))))"

definition broken_link_message :: "string \<Rightarrow> path \<Rightarrow> string" where
  "broken_link_message tgt resolved =
     ''broken link target `'' @ tgt @ ''` (resolved `'' @ str_of_path resolved @ ''`)''"

text \<open>
  \<^verbatim>\<open>heading_cache\<close>: the anchors of each record under its resolved path; of two records
  with the same resolved path the later one stays.
\<close>

definition heading_cache :: "world \<Rightarrow> doc_record list \<Rightarrow> path \<Rightarrow> string set option" where
  "heading_cache w records = map_of (rev (map (\<lambda>r. (fs_resolve w (path r), anchors r)) records))"

text \<open>The body of the inner loop of \<^verbatim>\<open>validate_links\<close> for one link of one record.\<close>

definition link_problems ::
    "world \<Rightarrow> (path \<Rightarrow> string set option) \<Rightarrow> doc_record \<Rightarrow> link_ref \<Rightarrow> error + problem list" where
  "link_problems w cache record link =
     (case resolve_markdown_link w record (target link) of
        Inl e \<Rightarrow> Inl e
      | Inr (resolved0, anchor, skip_reason) \<Rightarrow>
          (if skip_reason \<noteq> None then Inr []
           else (case resolved0 of
                   None \<Rightarrow> Inr []
                 | Some resolved \<Rightarrow>
                     (let resolved_key = fs_resolve w resolved
                      in if \<not> fs_exists w resolved_key
                         then Inr [Problem ''links'' (rel_path record)
                                     (broken_link_message (target link) resolved) (Some (lline link))]
                         else (case anchor of
                                 None \<Rightarrow> Inr []
                               | Some a \<Rightarrow>
                                   (if lower (path_suffix resolved_key) = ''.md''
                                    then (case cache resolved_key of
                                            None \<Rightarrow> Inr []
                                          | Some anchors0 \<Rightarrow>
                                              (if a \<notin> anchors0
                                               then (case relative_to resolved_key (repo_root w) of
                                                       Inl e \<Rightarrow> Inl e
                                                     | Inr rp \<Rightarrow>
                                                         Inr [Problem ''links'' (rel_path record)
                                                                (''missing anchor `#'' @ a @ ''` in `''
                                                                   @ as_posix rp @ ''`'')
                                                                (Some (lline link))])
                                               else Inr []))
                                    else Inr []))))))"

fun for_links :: "(link_ref \<Rightarrow> error + problem list) \<Rightarrow> link_ref list \<Rightarrow> error + problem list" where
  "for_links f [] = Inr []"
| "for_links f (l # ls) =
     (case f l of
        Inl e \<Rightarrow> Inl e
      | Inr ps \<Rightarrow> (case for_links f ls of Inl e \<Rightarrow> Inl e | Inr qs \<Rightarrow> Inr (ps @ qs)))"

definition validate_links :: "world \<Rightarrow> doc_record list \<Rightarrow> error + problem list" where
  "validate_links w records =
     for_records
       (\<lambda>record. for_links (link_problems w (heading_cache w records) record) (links record))
       records"

section \<open>Diagram and API-description checks\<close>

text \<open>
  \<^verbatim>\<open>(err or out or default).strip().splitlines()[-1]\<close>: the last line of what a tool
  printed; the index fails when nothing but white space was printed.
\<close>

definition last_message_line :: "proc_result \<Rightarrow> string \<Rightarrow> error + string" where
  "last_message_line result fallback =
     (let msg = (if stderr result \<noteq> [] then stderr result
                 else if stdout result \<noteq> [] then stdout result else fallback)
      in (case splitlines (strip msg) of [] \<Rightarrow> Inl IndexError | ls \<Rightarrow> Inr (last ls)))"

text \<open>The loop of \<^verbatim>\<open>render_mermaid_sources\<close> when the renderer is there.\<close>

fun render_loop :: "world \<Rightarrow> (string \<times> nat option \<times> string) list \<Rightarrow> error + problem list" where
  "render_loop w [] = Inr []"
| "render_loop w ((label, line0, source) # rest) =
     (let result = run_mmdc w (source @ nl)
      in (case (if returncode result \<noteq> 0
                then (case last_message_line result ''mmdc failed'' of
                        Inl e \<Rightarrow> Inl e
                      | Inr msg \<Rightarrow>
                          Inr [Problem ''mermaid'' label (''render validation failed: '' @ msg) line0])
                else Inr []) of
            Inl e \<Rightarrow> Inl e
          | Inr ps \<Rightarrow> (case render_loop w rest of Inl e \<Rightarrow> Inl e | Inr qs \<Rightarrow> Inr (ps @ qs))))"

definition render_mermaid_sources ::
    "world \<Rightarrow> (string \<times> nat option \<times> string) list \<Rightarrow> bool \<Rightarrow> error + problem list" where
  "render_mermaid_sources w sources require_renderer =
     (if \<not> which w ''mmdc''
      then Inr (if require_renderer \<and> sources \<noteq> []
                then [Problem ''mermaid'' ''mmdc''
                        ''mermaid-cli (`mmdc`) is required but not installed'' None]
                else [])
      else render_loop w sources)"

text \<open>
  The two loops of \<^verbatim>\<open>validate_mermaid\<close>: over the records, and over the diagram files
  under \<^verbatim>\<open>docs/assets\<close>.  Each returns its diagnostics and the sources it found.
\<close>

definition record_mermaid :: "doc_record \<Rightarrow> problem list \<times> (string \<times> nat option \<times> string) list" where
  "record_mermaid record =
     (case extract_fenced_mermaid_blocks record of
        (blocks0, block_problems) \<Rightarrow>
          (block_problems, map (\<lambda>(line0, source). (rel_path record, Some line0, source)) blocks0))"

fun mmd_loop :: "world \<Rightarrow> path list \<Rightarrow> error + (problem list \<times> (string \<times> nat option \<times> string) list)" where
  "mmd_loop w [] = Inr ([], [])"
| "mmd_loop w (p # ps) =
     (case read_text w p of
        Inl e \<Rightarrow> Inl e
      | Inr text0 \<Rightarrow>
          (case relative_to p (repo_root w) of
             Inl e \<Rightarrow> Inl e
           | Inr rp \<Rightarrow>
               (case mmd_loop w ps of
                  Inl e \<Rightarrow> Inl e
                | Inr (problems0, sources) \<Rightarrow>
                    (if strip text0 = []
                     then Inr (Problem ''mermaid'' (as_posix rp) ''empty .mmd diagram file'' None # problems0,
                               sources)
                     else Inr (problems0, (as_posix rp, None, strip text0) # sources)))))"

definition validate_mermaid :: "world \<Rightarrow> doc_record list \<Rightarrow> bool \<Rightarrow> error + (problem list \<times> nat)" where
  "validate_mermaid w records require_renderer =
     (let per_record = map record_mermaid records
      in (case mmd_loop w (rglob_mmd w) of
            Inl e \<Rightarrow> Inl e
          | Inr (file_problems, file_sources) \<Rightarrow>
              (let sources = concat (map snd per_record) @ file_sources
               in (case render_mermaid_sources w sources require_renderer of
                     Inl e \<Rightarrow> Inl e
                   | Inr render_problems \<Rightarrow>
                       Inr (concat (map fst per_record) @ file_problems @ render_problems,
                            length sources)))))"

text \<open>
  \<^verbatim>\<open>re.search(r"^\s*(openapi|swagger)\s*:\s*", text, flags=re.MULTILINE)\<close>: at the start of
  the text or behind a line feed, white space, one of the two words, white space, a colon.
\<close>

definition declaration_at :: "string \<Rightarrow> bool" where
  "declaration_at s =
     (let t = dropWhile isspace s
      in (startswith t ''openapi'' \<or> startswith t ''swagger'')
         \<and> startswith (dropWhile isspace (drop 7 t)) '':'')"

fun has_declaration :: "bool \<Rightarrow> string \<Rightarrow> bool" where
  "has_declaration at_start [] = False"
| "has_declaration at_start (c # cs) =
     ((at_start \<and> declaration_at (c # cs)) \<or> has_declaration (c = CHR 0x0A) cs)"

definition basic_openapi_sanity_check :: "world \<Rightarrow> path \<Rightarrow> error + string option" where
  "basic_openapi_sanity_check w p =
     (if lower (path_suffix p) = ''.json''
      then (case json_load w p of
              Inl exc \<Rightarrow> Inr (Some (''invalid JSON: '' @ exc))
            | Inr (JsonObject keys) \<Rightarrow>
                (if ''openapi'' \<notin> set keys \<and> ''swagger'' \<notin> set keys
                 then Inr (Some ''missing `openapi` or `swagger` top-level key'') else Inr None)
            | Inr JsonOther \<Rightarrow> Inr (Some ''missing `openapi` or `swagger` top-level key''))
      else (case read_text w p of
              Inl e \<Rightarrow> Inl e
            | Inr text0 \<Rightarrow>
                (if has_declaration True text0 then Inr None
                 else Inr (Some ''missing `openapi:` or `swagger:` declaration''))))"

fun openapi_loop :: "world \<Rightarrow> path list \<Rightarrow> error + problem list" where
  "openapi_loop w [] = Inr []"
| "openapi_loop w (spec # rest) =
     (case relative_to spec (repo_root w) of
        Inl e \<Rightarrow> Inl e
      | Inr rp \<Rightarrow>
          (case (if which w ''swagger-cli''
                 then (let result = run_swagger_cli w spec
                       in if returncode result \<noteq> 0
                          then (case last_message_line result ''swagger-cli validate failed'' of
                                  Inl e \<Rightarrow> Inl e
                                | Inr msg \<Rightarrow> Inr [Problem ''openapi'' (as_posix rp) msg None])
                          else Inr [])
                 else (case basic_openapi_sanity_check w spec of
                         Inl e \<Rightarrow> Inl e
                       | Inr None \<Rightarrow> Inr []
                       | Inr (Some err) \<Rightarrow>
                           (if err \<noteq> [] then Inr [Problem ''openapi'' (as_posix rp) err None]
                            else Inr []))) of
             Inl e \<Rightarrow> Inl e
           | Inr ps \<Rightarrow> (case openapi_loop w rest of Inl e \<Rightarrow> Inl e | Inr qs \<Rightarrow> Inr (ps @ qs))))"

definition validate_openapi :: "world \<Rightarrow> bool \<Rightarrow> error + (problem list \<times> nat)" where
  "validate_openapi w require_validator =
     (let specs = filter (\<lambda>p. fs_is_file w p \<and>
                    lower (path_suffix p) \<in> {''.yaml'', ''.yml'', ''.json''}) (rglob_openapi w)
      in if specs = [] then Inr ([], 0)
         else if require_validator \<and> \<not> which w ''swagger-cli''
         then Inr ([Problem ''openapi'' ''swagger-cli''
                      ''OpenAPI validator (`swagger-cli`) is required but not installed'' None],
                   length specs)
         else (case openapi_loop w specs of
                 Inl e \<Rightarrow> Inl e
               | Inr ps \<Rightarrow> Inr (ps, length specs)))"

section \<open>The audit report\<close>

text \<open>\<^verbatim>\<open>print_problems\<close>: one line for each diagnostic, in sorted order.\<close>

definition problem_line :: "problem \<Rightarrow> string" where
  "problem_line p =
     (let loc = (case line p of
                   None \<Rightarrow> ppath p
                 | Some n \<Rightarrow> (if n = 0 then ppath p else ppath p @ '':'' @ str_nat n))
      in ''['' @ check p @ ''] '' @ loc @ '' - '' @ message p)"

definition print_problems :: "problem list \<Rightarrow> string list" where
  "print_problems ps =
     map problem_line
       (sort_key (\<lambda>x. (check x, ppath x, (case line x of None \<Rightarrow> 0 | Some n \<Rightarrow> n), message x)) ps)"

text \<open>The loop of \<^verbatim>\<open>frontmatter_freshness_metrics\<close>: fresh, total and the stale documents.\<close>

fun freshness_loop :: "world \<Rightarrow> int \<Rightarrow> int \<Rightarrow> doc_record list \<Rightarrow> nat \<times> nat \<times> string list" where
  "freshness_loop w stale_days today [] = (0, 0, [])"
| "freshness_loop w stale_days today (record # rest) =
     (case freshness_loop w stale_days today rest of
        (fresh, total0, stale_docs) \<Rightarrow>
          (case fm_str (frontmatter record) ''last_reviewed'' of
             None \<Rightarrow> (fresh, total0, stale_docs)
           | Some reviewed \<Rightarrow>
               (case parse_review_date w reviewed of
                  None \<Rightarrow> (fresh, total0, stale_docs)
                | Some parsed \<Rightarrow>
                    (if today - parsed \<le> stale_days then (fresh + 1, total0 + 1, stale_docs)
                     else (fresh, total0 + 1, rel_path record # stale_docs)))))"

definition frontmatter_freshness_metrics ::
    "world \<Rightarrow> doc_record list \<Rightarrow> contracts \<Rightarrow> error + (nat \<times> nat \<times> string list)" where
  "frontmatter_freshness_metrics w records c =
     (case stale_days_of w c of
        Inl e \<Rightarrow> Inl e
      | Inr stale_days \<Rightarrow>
          (case current_date w of
             Inl e \<Rightarrow> Inl e
           | Inr today \<Rightarrow> Inr (freshness_loop w stale_days today records)))"

definition counts_by_category :: "doc_record list \<Rightarrow> (string \<times> nat) list" where
  "counts_by_category records =
     (let cats = map (\<lambda>record. case fm_str (frontmatter record) ''category'' of
                                None \<Rightarrow> ''unknown'' | Some cat \<Rightarrow> cat) records
      in map (\<lambda>k. (k, count_list cats k)) (sorted_set cats))"

record audit_report =
  generated_at :: string
  document_count :: nat
  markdown_count :: nat
  report_counts_by_category :: "(string \<times> nat) list"
  fresh_review_percent :: real
  stale_documents :: "string list"
  broken_internal_links :: nat
  mermaid_block_count :: nat
  openapi_spec_count :: nat
  validation_issue_counts :: "(string \<times> nat) list"

text \<open>
  What \<^verbatim>\<open>write_audit_report\<close> does besides returning its exit code, in order: it makes
  the directory of the output file, writes the report there (as JSON text, which is not
  modelled further), and prints lines.
\<close>

datatype event = MakeDirs path | WriteReport path audit_report | Print string

definition write_audit_report ::
    "world \<Rightarrow> doc_record list \<Rightarrow> problem list \<Rightarrow> contracts \<Rightarrow> path \<Rightarrow> error + (event list \<times> int)" where
  "write_audit_report w records parse_problems c output =
     (let structure_problems = validate_structure w c
      in (case validate_frontmatter w records c of
            Inl e \<Rightarrow> Inl e
          | Inr frontmatter_problems \<Rightarrow>
      (case validate_sop_headings w records c of
            Inl e \<Rightarrow> Inl e
          | Inr sop_problems \<Rightarrow>
      (case validate_links w records of
            Inl e \<Rightarrow> Inl e
          | Inr link_problems0 \<Rightarrow>
      (case validate_mermaid w records False of
            Inl e \<Rightarrow> Inl e
          | Inr (mermaid_problems, mermaid_count) \<Rightarrow>
      (case validate_openapi w False of
            Inl e \<Rightarrow> Inl e
          | Inr (openapi_problems, openapi_count) \<Rightarrow>
      (case frontmatter_freshness_metrics w records c of
            Inl e \<Rightarrow> Inl e
          | Inr (fresh, total_reviewed, stale_docs) \<Rightarrow>
              (let fresh_percent =
                     (if total_reviewed \<noteq> 0 then round_percent w fresh total_reviewed else 0);
                   report =
                     \<lparr>generated_at = utc_now w,
                      document_count = length records,
                      markdown_count = length records,
                      report_counts_by_category = counts_by_category records,
                      fresh_review_percent = fresh_percent,
                      stale_documents = stale_docs,
                      broken_internal_links =
                        length (filter (\<lambda>p. check p = ''links'') link_problems0),
                      mermaid_block_count = mermaid_count,
                      openapi_spec_count = openapi_count,
                      validation_issue_counts =
                        [(''parse'', length parse_problems),
                         (''structure'', length structure_problems),
                         (''frontmatter'', length frontmatter_problems),
                         (''sop'', length sop_problems),
                         (''links'', length link_problems0),
                         (''mermaid'', length mermaid_problems),
                         (''openapi'', length openapi_problems)]\<rparr>;
                   written =
                     [MakeDirs (parent output), WriteReport output report,
                      Print (''Wrote audit report: '' @ str_of_path output)];
                   all_problems =
                     parse_problems @ structure_problems @ frontmatter_problems @ sop_problems
                       @ link_problems0 @ mermaid_problems @ openapi_problems
               in if all_problems \<noteq> []
                  then Inr (written @ map Print (print_problems all_problems)
                              @ [Print (nl @ ''FAILED: '' @ str_nat (length all_problems) @ '' issue(s)'')],
                            1)
                  else Inr (written @ [Print ''OK''], 0)))))))))"

text \<open>The command \<^verbatim>\<open>audit-report\<close> of \<^verbatim>\<open>main\<close>, for the contract file \<open>c\<close>.\<close>

definition audit_report_command :: "world \<Rightarrow> contracts \<Rightarrow> path \<Rightarrow> error + (event list \<times> int)" where
  "audit_report_command w c output =
     (case collect_docs w of
        Inl e \<Rightarrow> Inl e
      | Inr (records, parse_problems) \<Rightarrow> write_audit_report w records parse_problems c output)"

section \<open>Notions used in the statements\<close>

text \<open>The diagnostic that flags a stale review date, by the start of its message.\<close>

definition is_stale_flag :: "problem \<Rightarrow> bool" where
  "is_stale_flag p = startswith (message p) ''`last_reviewed` is stale''"

text \<open>The target is a relative or corpus-rooted path that is not skipped.\<close>

definition checked_path_target :: "string \<Rightarrow> bool" where
  "checked_path_target tgt =
     (let path_part = takeWhile (\<lambda>c. c \<noteq> CHR ''#'') tgt
      in \<not> startswith tgt ''?'' \<and> \<not> scheme_match tgt \<and> \<not> startswith tgt ''//'' \<and>
         path_part \<noteq> [] \<and> CHR ''?'' \<notin> set path_part \<and>
         (startswith path_part ''/'' \<longrightarrow> startswith path_part ''/docs/''))"

text \<open>The path such a target stands for, before any candidate is tried.\<close>

definition base_path :: "world \<Rightarrow> doc_record \<Rightarrow> string \<Rightarrow> path" where
  "base_path w record tgt =
     (let path_part = takeWhile (\<lambda>c. c \<noteq> CHR ''#'') tgt
      in if startswith path_part ''/docs/''
         then joinpath (repo_root w) (dropWhile (\<lambda>c. c = CHR ''/'') path_part)
         else fs_resolve w (joinpath (parent (path record)) path_part))"

text \<open>\<^verbatim>\<open>resolve_markdown_link\<close> from the point where the path \<open>resolved\<close> is known.\<close>

definition resolve_candidates :: "world \<Rightarrow> path \<Rightarrow> string option \<Rightarrow>
    error + (path option \<times> string option \<times> string option)" where
  "resolve_candidates w resolved anchor =
     (if fs_exists w resolved then Inr (Some resolved, anchor, None)
      else if path_suffix resolved = []
      then (case with_suffix resolved ''.md'' of
              Inl e \<Rightarrow> Inl e
            | Inr md_candidate \<Rightarrow>
                (if fs_exists w md_candidate then Inr (Some md_candidate, anchor, None)
                 else if fs_exists w (resolved @ [''index.md''])
                 then Inr (Some (resolved @ [''index.md'']), anchor, None)
                 else Inr (Some resolved, anchor, None)))
      else Inr (Some resolved, anchor, None))"

section \<open>Examples\<close>

text \<open>
  The calendar form \<^verbatim>\<open>YYYY-MM-DD\<close> of \<^verbatim>\<open>date.fromisoformat\<close>, with the ordinal of the
  date as \<^verbatim>\<open>date.toordinal\<close> gives it.  (The standard function accepts further forms.)
\<close>

definition is_leap :: "int \<Rightarrow> bool" where
  "is_leap y = (y mod 4 = 0 \<and> (y mod 100 \<noteq> 0 \<or> y mod 400 = 0))"

definition days_in_month :: "int \<Rightarrow> int \<Rightarrow> int" where
  "days_in_month y m =
     (if m = 2 then (if is_leap y then 29 else 28)
      else if m = 4 \<or> m = 6 \<or> m = 9 \<or> m = 11 then 30 else 31)"

definition ymd_ordinal :: "int \<Rightarrow> int \<Rightarrow> int \<Rightarrow> int" where
  "ymd_ordinal y m d =
     (y - 1) * 365 + (y - 1) div 4 - (y - 1) div 100 + (y - 1) div 400
       + sum_list (map (days_in_month y) [1..m - 1]) + d"

definition decimal_value :: "string \<Rightarrow> int option" where
  "decimal_value s =
     (if list_all is_ascii_digit s then Some (foldl (\<lambda>a c. 10 * a + (of_char c - 48)) 0 s)
      else None)"

definition iso_calendar_date :: "string \<Rightarrow> int option" where
  "iso_calendar_date s =
     (if length s = 10 \<and> s ! 4 = CHR ''-'' \<and> s ! 7 = CHR ''-''
      then (case (decimal_value (take 4 s), decimal_value (take 2 (drop 5 s)), decimal_value (drop 8 s)) of
              (Some y, Some m, Some d) \<Rightarrow>
                (if 1 \<le> y \<and> 1 \<le> m \<and> m \<le> 12 \<and> 1 \<le> d \<and> d \<le> days_in_month y m
                 then Some (ymd_ordinal y m d) else None)
            | _ \<Rightarrow> None)
      else None)"

text \<open>\<^verbatim>\<open>resolve()\<close> in a tree without symbolic links: a double dot removes the component before it.\<close>

definition normpath :: "path \<Rightarrow> path" where
  "normpath p = fold (\<lambda>c acc. if c = ''..'' then butlast acc else acc @ [c]) p []"

text \<open>
  A contract, and a world with a few files under \<^verbatim>\<open>/repo/docs\<close>: its listing of
  documents is empty, the current date is overridden to 2024-07-01, and no external tool
  is installed.  \<open>world_plain\<close> and \<open>world_broken\<close> list one document each: one without a
  metadata block, one whose block has a line that does not parse.
\<close>

definition demo_contract :: contracts where
  "demo_contract =
     \<lparr>required_docs_directories = Some [''sop''],
      required_frontmatter = Some [''title'', ''category'', ''owner'', ''status'', ''last_reviewed''],
      allowed_categories = Some [''how-to'', ''reference'', ''sop''],
      allowed_statuses = Some [''active'', ''superseded''],
      allowed_owners = Some [''team-x''],
      diataxis_category_by_folder = Some [(''sop'', ''sop'')],
      root_docs_allowed_categories = Some [''how-to'', ''reference''],
      stale_review_days = Some 180,
      sop_required_headings = Some [''Goal'', ''Preconditions'', ''Steps'']\<rparr>"

definition text_plain :: string where
  "text_plain = ''# Title'' @ nl @ ''[x](y.md)''"

definition text_bad_line :: string where
  "text_bad_line = ''---'' @ nl @ ''title: T'' @ nl @ ''???'' @ nl @ ''---'' @ nl @ ''body''"

definition demo_texts :: "(path \<times> string) list" where
  "demo_texts =
     [([''repo'', ''docs'', ''plain.md''], text_plain),
      ([''repo'', ''docs'', ''broken.md''], text_bad_line),
      ([''repo'', ''docs'', ''guide.md''], ''guide''),
      ([''repo'', ''docs'', ''notes.v2.md''], ''notes'')]"

definition demo_dirs :: "path list" where
  "demo_dirs = [[], [''repo''], [''repo'', ''docs''], [''repo'', ''docs'', ''sop'']]"

definition demo_world :: world where
  "demo_world =
     \<lparr>repo_root = [''repo''],
      fs_exists = (\<lambda>p. p \<in> set demo_dirs \<or> p \<in> set (map fst demo_texts)),
      fs_resolve = normpath,
      fs_is_file = (\<lambda>p. p \<in> set (map fst demo_texts)),
      rglob_md = [],
      rglob_mmd = [],
      rglob_openapi = [],
      read_text = (\<lambda>p. case map_of demo_texts p of None \<Rightarrow> Inl OSError | Some t \<Rightarrow> Inr t),
      environ = [(''DOCS_TODAY'', ''2024-07-01'')],
      date_today = 739000,
      utc_now = ''2024-07-01T00:00:00Z'',
      fromisoformat = iso_calendar_date,
      which = (\<lambda>tool. False),
      run_mmdc = (\<lambda>source. \<lparr>returncode = 0, stdout = [], stderr = []\<rparr>),
      run_swagger_cli = (\<lambda>p. \<lparr>returncode = 0, stdout = [], stderr = []\<rparr>),
      json_load = (\<lambda>p. Inr JsonOther),
      round_percent = (\<lambda>fresh total0. 100 * real fresh / real total0)\<rparr>"

definition demo_record :: "path \<Rightarrow> string \<Rightarrow> doc_record" where
  "demo_record p rel =
     \<lparr>path = p, rel_path = rel, doc_text = [], frontmatter = [], body = [], headings = [],
      anchors = {}, links = []\<rparr>"

definition doc_stale :: doc_record where
  "doc_stale =
     (demo_record [''repo'', ''docs'', ''a.md''] ''docs/a.md'')
       \<lparr>frontmatter := [(''last_reviewed'', Scalar (SStr ''2024-01-02''))]\<rparr>"

definition doc_sop :: doc_record where
  "doc_sop =
     (demo_record [''repo'', ''docs'', ''sop'', ''deploy.md''] ''docs/sop/deploy.md'')
       \<lparr>headings := [''Goal'', ''Steps'']\<rparr>"

definition doc_links :: "string \<Rightarrow> doc_record" where
  "doc_links tgt =
     (demo_record [''repo'', ''docs'', ''a.md''] ''docs/a.md'')\<lparr>links := [LinkRef tgt 1]\<rparr>"

definition world_plain :: world where
  "world_plain = demo_world\<lparr>rglob_md := [[''repo'', ''docs'', ''plain.md'']]\<rparr>"

definition world_broken :: world where
  "world_broken = demo_world\<lparr>rglob_md := [[''repo'', ''docs'', ''broken.md'']]\<rparr>"

definition doc_plain :: doc_record where
  "doc_plain =
     \<lparr>path = [''repo'', ''docs'', ''plain.md''], rel_path = ''docs/plain.md'',
      doc_text = text_plain, frontmatter = [],
      body = text_plain, headings = [''Title''], anchors = {''title''},
      links = [LinkRef ''y.md'' 2]\<rparr>"

definition audit_output :: path where
  "audit_output = [''repo'', ''out'', ''audit.json'']"

text \<open>A document whose body opens a mermaid fence in its second line and never closes it.\<close>

definition doc_unclosed :: doc_record where
  "doc_unclosed =
     \<lparr>path = [''repo'', ''docs'', ''a.md''], rel_path = ''docs/a.md'', doc_text = [],
      frontmatter = [], body = ''intro'' @ nl @ ''```mermaid'' @ nl @ ''graph TD'',
      headings = [], anchors = {}, links = []\<rparr>"

text \<open>
  Example bodies: a fenced block that holds a heading and a link; the same heading twice;
  two headings whose slug is empty; a heading whose slug is empty between two equal headings.
\<close>

definition body_fenced :: string where
  "body_fenced =
     ''# A'' @ nl @ ''```'' @ nl @ ''# B [x](y)'' @ nl @ ''```'' @ nl @ ''[z](w)''"

definition body_twice :: string where
  "body_twice = ''# Intro'' @ nl @ ''# Intro''"

definition body_no_slug :: string where
  "body_no_slug = ''# !!!'' @ nl @ ''# !!!''"

definition body_mixed :: string where
  "body_mixed = ''# Intro'' @ nl @ ''# !!!'' @ nl @ ''# Intro''"

text \<open>
  Example texts: a first line that starts with the delimiter but is not the delimiter; a
  block that is never closed; a block closed by an indented delimiter; a block in which
  the key \<^verbatim>\<open>title\<close> comes twice.
\<close>

definition text_invalid_start :: string where
  "text_invalid_start = ''---x'' @ nl @ ''---'' @ nl @ ''body''"

definition text_unterminated :: string where
  "text_unterminated = ''---'' @ nl @ ''title: T''"

definition text_with_block :: string where
  "text_with_block = ''---'' @ nl @ ''title: T'' @ nl @ '' --- '' @ nl @ ''# H'' @ nl @ ''more''"

definition raw_duplicate :: string where
  "raw_duplicate =
     ''title: A'' @ nl @ ''tags:'' @ nl @ ''- x'' @ nl @ ''title: B'' @ nl @ ''owner: me''"

section \<open>Properties of the string functions\<close>

text \<open>No line that \<open>splitlines\<close> returns holds a line boundary.\<close>

lemma splitlines_no_break:
  "l \<in> set (splitlines s) \<Longrightarrow> \<forall>c \<in> set l. \<not> islinebreak c"
proof (induction s arbitrary: l rule: splitlines.induct)
  case 1
  then show ?case by simp
next
  case (2 d)
  then show ?case by (cases "islinebreak d") simp_all
next
  case (3 a b cs)
  note mem = \<open>l \<in> set (splitlines (a # b # cs))\<close>
  show ?case
  proof (cases "a = CHR 0x0D \<and> b = CHR 0x0A")
    case True
    then have "splitlines (a # b # cs) = [] # splitlines cs" by simp
    with mem have "l = [] \<or> l \<in> set (splitlines cs)" by simp
    with "3.IH"(1) [OF True] show ?thesis by fastforce
  next
    case crlf: False
    show ?thesis
    proof (cases "islinebreak a")
      case True
      have "splitlines (a # b # cs) = [] # splitlines (b # cs)"
        using crlf True by (simp only: splitlines.simps if_False if_True)
      with mem have "l = [] \<or> l \<in> set (splitlines (b # cs))" by simp
      with "3.IH"(2) [OF crlf True] show ?thesis by fastforce
    next
      case False
      note IH = "3.IH"(3) [OF crlf False]
      show ?thesis
      proof (cases "splitlines (b # cs)")
        case Nil
        have "splitlines (a # b # cs) = [[a]]"
          using crlf False Nil by (simp only: splitlines.simps if_False list.case)
        with mem False show ?thesis by simp
      next
        case (Cons l0 ls)
        have "splitlines (a # b # cs) = (a # l0) # ls"
          using crlf False Cons by (simp only: splitlines.simps if_False list.case)
        with mem have "l = a # l0 \<or> l \<in> set ls" by simp
        then show ?thesis
        proof
          assume l: "l = a # l0"
          have "l0 \<in> set (splitlines (b # cs))" using Cons by simp
          from IH [OF this] l False show ?thesis by simp
        next
          assume "l \<in> set ls"
          then have "l \<in> set (splitlines (b # cs))" using Cons by simp
          from IH [OF this] show ?thesis .
        qed
      qed
    qed
  qed
qed

section \<open>Properties of the mermaid extractor\<close>

lemma mermaid_loop_Nil: "mermaid_loop rel n [] st = st"
  by (simp add: mermaid_loop_def)

lemma mermaid_loop_Cons:
  "mermaid_loop rel n (l # ls) st = mermaid_loop rel (Suc n) ls (mermaid_step rel (n, l) st)"
  by (simp add: mermaid_loop_def)

lemma mermaid_loop_append:
  "mermaid_loop rel n (xs @ ys) st =
     mermaid_loop rel (n + length xs) ys (mermaid_loop rel n xs st)"
  by (induction xs arbitrary: n st) (simp_all add: mermaid_loop_Nil mermaid_loop_Cons)

lemma mermaid_step_in_fence:
  "in_fence (mermaid_step rel (n, l) st) = (if is_fence l then \<not> in_fence st else in_fence st)"
  by (simp add: mermaid_step_def is_fence_def Let_def split: option.splits)

lemma mermaid_loop_in_fence:
  "in_fence (mermaid_loop rel n ls st) = (if fence_open ls then \<not> in_fence st else in_fence st)"
proof (induction ls arbitrary: n st)
  case Nil
  show ?case by (simp add: mermaid_loop_Nil fence_open_def)
next
  case (Cons l ls)
  show ?case
    by (simp add: mermaid_loop_Cons Cons.IH mermaid_step_in_fence fence_open_def)
qed

text \<open>Inside a fence, lines that are no fence lines only fill the buffer.\<close>

lemma mermaid_loop_inside:
  assumes "in_fence st" and "\<forall>l \<in> set ls. \<not> is_fence l"
  shows "mermaid_loop rel n ls st = st\<lparr>buffer := buffer st @ ls\<rparr>"
  using assms
proof (induction ls arbitrary: n st)
  case Nil
  show ?case by (simp add: mermaid_loop_Nil)
next
  case (Cons l ls)
  from Cons.prems have step: "mermaid_step rel (n, l) st = st\<lparr>buffer := buffer st @ [l]\<rparr>"
    by (simp add: mermaid_step_def is_fence_def)
  have "mermaid_loop rel (Suc n) ls (st\<lparr>buffer := buffer st @ [l]\<rparr>) =
        (st\<lparr>buffer := buffer st @ [l]\<rparr>)\<lparr>buffer := buffer (st\<lparr>buffer := buffer st @ [l]\<rparr>) @ ls\<rparr>"
    using Cons.prems by (intro Cons.IH) simp_all
  then show ?case by (simp add: mermaid_loop_Cons step)
qed

lemma mermaid_step_open:
  assumes "\<not> in_fence st" and "is_fence l"
  shows "in_fence (mermaid_step rel (n, l) st)"
    and "fence_start_line (mermaid_step rel (n, l) st) = n"
    and "blocks (mermaid_step rel (n, l) st) = blocks st"
    and "problems (mermaid_step rel (n, l) st) = problems st"
  using assms by (auto simp: mermaid_step_def is_fence_def)

text \<open>
  C10.  When the lines of a body are \<open>pre\<close>, then a fence line \<open>opener\<close> met outside a
  fence, then lines \<open>rest\<close> none of which is a fence line, the extractor returns the
  blocks of \<open>pre\<close> alone and its diagnostics followed by one \<^verbatim>\<open>unclosed code fence\<close>
  diagnostic whose line number is the number of the opening fence line; nothing from the
  opening fence to the end of the body has any other effect.
\<close>

theorem unclosed_fence_reported:
  assumes "splitlines (body record) = pre @ [opener] @ rest"
    and "\<not> fence_open pre"
    and "is_fence opener"
    and "\<forall>l \<in> set rest. \<not> is_fence l"
  shows "extract_fenced_mermaid_blocks record =
           (fst (mermaid_lines (rel_path record) pre),
            snd (mermaid_lines (rel_path record) pre) @
              [Problem ''mermaid'' (rel_path record) ''unclosed code fence''
                 (Some (length pre + 1))])"
proof -
  define rel where "rel = rel_path record"
  define s0 where "s0 = mermaid_loop rel 1 pre mermaid_init"
  define s1 where "s1 = mermaid_step rel (1 + length pre, opener) s0"
  have closed: "\<not> in_fence s0"
    using assms(2) by (simp add: s0_def mermaid_loop_in_fence mermaid_init_def)
  have s1: "in_fence s1" "fence_start_line s1 = 1 + length pre"
    "blocks s1 = blocks s0" "problems s1 = problems s0"
    unfolding s1_def using mermaid_step_open [OF closed assms(3)] by simp_all
  have "mermaid_loop rel 1 (pre @ [opener] @ rest) mermaid_init =
        mermaid_loop rel (Suc (1 + length pre)) rest s1"
    by (simp add: mermaid_loop_append mermaid_loop_Cons s0_def s1_def)
  also have "\<dots> = s1\<lparr>buffer := buffer s1 @ rest\<rparr>"
    using s1(1) assms(4) by (rule mermaid_loop_inside)
  finally have "mermaid_lines rel (pre @ [opener] @ rest) =
      mermaid_finish rel (s1\<lparr>buffer := buffer s1 @ rest\<rparr>)"
    by (simp add: mermaid_lines_def)
  moreover have "mermaid_lines rel pre = (blocks s0, problems s0)"
    using closed by (simp add: mermaid_lines_def mermaid_finish_def s0_def)
  ultimately show ?thesis
    using s1 by (simp add: extract_fenced_mermaid_blocks_def assms(1) rel_def mermaid_finish_def)
qed

theorem unclosed_fence_reported_witness:
  "extract_fenced_mermaid_blocks doc_unclosed =
     ([], [Problem ''mermaid'' ''docs/a.md'' ''unclosed code fence'' (Some 2)])"
proof -
  have 1: "splitlines (body doc_unclosed) = [''intro''] @ [''```mermaid''] @ [''graph TD'']"
    by (simp add: doc_unclosed_def nl_def islinebreak_def)
  have 2: "\<not> fence_open [''intro'']"
    by (simp add: fence_open_def is_fence_def fence_match_def startswith_def)
  have 3: "is_fence ''```mermaid''"
    by code_simp
  have 4: "\<forall>l \<in> set [''graph TD'']. \<not> is_fence l"
    by (simp add: is_fence_def fence_match_def startswith_def)
  have 5: "mermaid_lines ''docs/a.md'' [''intro''] = ([], [])"
    by (simp add: mermaid_lines_def mermaid_loop_def mermaid_step_def mermaid_finish_def
        mermaid_init_def enumerate_simps fence_match_def startswith_def)
  show ?thesis
    using unclosed_fence_reported [OF 1 2 3 4] 5 by (simp add: doc_unclosed_def)
qed

section \<open>Properties of the slug\<close>

lemma lower_char_idem: "lower_char (lower_char c) = lower_char c"
  by (auto simp: lower_char_def Let_def)

lemma word_not_space: "is_word_char c \<Longrightarrow> \<not> isspace c"
  by (auto simp: is_word_char_def isspace_def Let_def is_ascii_upper_def is_ascii_lower_def is_ascii_digit_def)

lemma word_not_backtick: "is_word_char c \<Longrightarrow> c \<noteq> CHR 0x60"
  by (auto simp: is_word_char_def Let_def is_ascii_upper_def is_ascii_lower_def is_ascii_digit_def)

lemma lower_hyphen: "lower_char (CHR ''-'') = CHR ''-''"
  by (simp add: lower_char_def)

lemma hyphen_not_space: "\<not> isspace (CHR ''-'')"
  by (simp add: isspace_def)

lemma no_double_appendD: "no_double (xs @ ys) \<Longrightarrow> no_double xs \<and> no_double ys"
proof (induction xs rule: no_double.induct)
  case 1
  then show ?case by simp
next
  case (2 c)
  then show ?case by (cases ys) simp_all
next
  case (3 c d cs)
  then show ?case by simp
qed

lemma sub_hyphen_runs_hd: "sub_hyphen_runs s \<noteq> [] \<Longrightarrow> s \<noteq> [] \<and> hd (sub_hyphen_runs s) = hd s"
  by (cases s) auto

lemma no_double_sub_hyphen_runs: "no_double (sub_hyphen_runs s)"
proof (induction s rule: sub_hyphen_runs.induct)
  case 1
  show ?case by simp
next
  case (2 c cs)
  show ?case
  proof (cases "c = CHR ''-'' \<and> cs \<noteq> [] \<and> hd cs = CHR ''-''")
    case True
    let ?r = "dropWhile (\<lambda>d. d = CHR ''-'') cs"
    have nd: "no_double (sub_hyphen_runs ?r)" using 2(1) True by simp
    have "sub_hyphen_runs ?r = [] \<or> hd (sub_hyphen_runs ?r) \<noteq> CHR ''-''"
      using sub_hyphen_runs_hd [of ?r] hd_dropWhile [of "\<lambda>d. d = CHR ''-''" cs] by auto
    with nd have "no_double (CHR ''-'' # sub_hyphen_runs ?r)"
      by (cases "sub_hyphen_runs ?r") auto
    with True show ?thesis by simp
  next
    case False
    have nd: "no_double (sub_hyphen_runs cs)" using 2(2) False by simp
    have "sub_hyphen_runs cs = [] \<or> \<not> (c = CHR ''-'' \<and> hd (sub_hyphen_runs cs) = CHR ''-'')"
      using sub_hyphen_runs_hd [of cs] False by auto
    with nd have "no_double (c # sub_hyphen_runs cs)"
      by (cases "sub_hyphen_runs cs") auto
    with False show ?thesis by auto
  qed
qed

lemma sub_hyphen_runs_id: "no_double s \<Longrightarrow> sub_hyphen_runs s = s"
  by (induction s rule: no_double.induct) auto

lemma set_sub_hyphen_runs: "set (sub_hyphen_runs s) \<subseteq> set s"
proof (induction s rule: sub_hyphen_runs.induct)
  case 1
  show ?case by simp
next
  case (2 c cs)
  show ?case
  proof (cases "c = CHR ''-'' \<and> cs \<noteq> [] \<and> hd cs = CHR ''-''")
    case True
    with 2(1) have "set (sub_hyphen_runs (dropWhile (\<lambda>d. d = CHR ''-'') cs)) \<subseteq> set cs"
      using set_dropWhileD [of _ "\<lambda>d. d = CHR ''-''" cs] by blast
    with True show ?thesis by auto
  next
    case False
    with 2(2) have "set (sub_hyphen_runs cs) \<subseteq> set cs" by simp
    with False show ?thesis by auto
  qed
qed

lemma set_sub_space_runs:
  "set (sub_space_runs rep s) \<subseteq> {c \<in> set s. \<not> isspace c} \<union> set rep"
proof (induction rep s rule: sub_space_runs.induct)
  case (1 rep)
  show ?case by simp
next
  case (2 rep c cs)
  show ?case
  proof (cases "isspace c")
    case True
    with 2(1) have "set (sub_space_runs rep (dropWhile isspace cs))
        \<subseteq> {c \<in> set cs. \<not> isspace c} \<union> set rep"
      using set_dropWhileD [of _ isspace cs] by blast
    with True show ?thesis by auto
  next
    case False
    with 2(2) have "set (sub_space_runs rep cs) \<subseteq> {c \<in> set cs. \<not> isspace c} \<union> set rep"
      by simp
    with False show ?thesis by auto
  qed
qed

lemma sub_space_runs_id: "\<forall>c \<in> set s. \<not> isspace c \<Longrightarrow> sub_space_runs rep s = s"
  by (induction s) auto

lemma dropWhile_ends_id:
  assumes "s = [] \<or> (\<not> P (hd s) \<and> \<not> P (last s))"
  shows "dropWhile P (rev (dropWhile P (rev s))) = s"
proof -
  have A: "dropWhile P (rev s) = rev s"
    using assms by (auto simp: dropWhile_eq_self_iff hd_rev)
  have B: "dropWhile P s = s"
    using assms by (auto simp: dropWhile_eq_self_iff)
  show ?thesis by (simp only: A B rev_rev_ident)
qed

lemma strip_id: "\<forall>c \<in> set s. \<not> isspace c \<Longrightarrow> strip s = s"
  unfolding strip_def lstrip_def rstrip_def
  by (rule dropWhile_ends_id) (cases s, auto)

lemma strip_hyphens_id:
  "s = [] \<or> (hd s \<noteq> CHR ''-'' \<and> last s \<noteq> CHR ''-'') \<Longrightarrow> strip_hyphens s = s"
  unfolding strip_hyphens_def by (rule dropWhile_ends_id) simp

lemma strip_hyphens_ends:
  "strip_hyphens s = [] \<or> (hd (strip_hyphens s) \<noteq> CHR ''-'' \<and> last (strip_hyphens s) \<noteq> CHR ''-'')"
proof (cases "strip_hyphens s = []")
  case True
  then show ?thesis by simp
next
  case False
  let ?P = "\<lambda>c. c = CHR ''-''"
  define q where "q = dropWhile ?P (rev s)"
  have sh: "strip_hyphens s = dropWhile ?P (rev q)"
    by (simp add: strip_hyphens_def q_def)
  with False have ne: "dropWhile ?P (rev q) \<noteq> []" by simp
  then have "rev q \<noteq> []" by auto
  then have qne: "q \<noteq> []" by simp
  then have "\<not> ?P (hd q)" unfolding q_def by (rule hd_dropWhile)
  then have lastq: "last (rev q) \<noteq> CHR ''-''" using qne by (simp add: last_rev)
  have hd: "\<not> ?P (hd (dropWhile ?P (rev q)))" using ne by (rule hd_dropWhile)
  have "rev q = takeWhile ?P (rev q) @ dropWhile ?P (rev q)" by simp
  then have "last (rev q) = last (dropWhile ?P (rev q))"
    using ne by (metis last_appendR)
  with lastq hd show ?thesis by (simp add: sh)
qed

lemma set_strip_hyphens: "set (strip_hyphens s) \<subseteq> set s"
proof
  fix c assume "c \<in> set (strip_hyphens s)"
  then have "c \<in> set (rev (dropWhile (\<lambda>c. c = CHR ''-'') (rev s)))"
    unfolding strip_hyphens_def by (rule set_dropWhileD)
  then have "c \<in> set (dropWhile (\<lambda>c. c = CHR ''-'') (rev s))" by simp
  then have "c \<in> set (rev s)" by (rule set_dropWhileD)
  then show "c \<in> set s" by simp
qed

lemma no_double_strip_hyphens: "no_double s \<Longrightarrow> no_double (strip_hyphens s)"
proof -
  assume nd: "no_double s"
  let ?P = "\<lambda>c. c = CHR ''-''"
  let ?r = "rev (dropWhile ?P (rev s))"
  have "rev (takeWhile ?P (rev s) @ dropWhile ?P (rev s)) = s"
    by (simp only: takeWhile_dropWhile_id rev_rev_ident)
  then have "s = ?r @ rev (takeWhile ?P (rev s))"
    by (simp only: rev_append)
  with nd have "no_double ?r" using no_double_appendD [of ?r "rev (takeWhile ?P (rev s))"] by simp
  then have "no_double (takeWhile ?P ?r @ dropWhile ?P ?r)" by simp
  then have "no_double (dropWhile ?P ?r)" by (rule no_double_appendD [THEN conjunct2])
  then show ?thesis by (simp add: strip_hyphens_def)
qed

lemma slug_fixed:
  assumes "slug_chars s" and "no_double s"
    and "s = [] \<or> (hd s \<noteq> CHR ''-'' \<and> last s \<noteq> CHR ''-'')"
  shows "slugify_heading s = s"
proof -
  have nospace: "\<forall>c \<in> set s. \<not> isspace c"
    using assms(1) word_not_space hyphen_not_space by (auto simp: slug_chars_def)
  have 1: "lower (strip s) = s"
    using assms(1) by (simp add: strip_id [OF nospace] lower_def slug_chars_def map_idI)
  have 2: "filter (\<lambda>c. c \<noteq> CHR 0x60) s = s"
    using assms(1) word_not_backtick by (auto simp: slug_chars_def filter_id_conv)
  have 3: "filter (\<lambda>c. is_word_char c \<or> isspace c \<or> c = CHR ''-'') s = s"
    using assms(1) by (auto simp: slug_chars_def filter_id_conv)
  show ?thesis
    unfolding slugify_heading_def Let_def
    by (simp only: 1 2 3 sub_space_runs_id [OF nospace]
        sub_hyphen_runs_id [OF assms(2)] strip_hyphens_id [OF assms(3)])
qed

lemma slug_shape:
  "slug_chars (slugify_heading t) \<and> no_double (slugify_heading t) \<and>
   (slugify_heading t = [] \<or>
    (hd (slugify_heading t) \<noteq> CHR ''-'' \<and> last (slugify_heading t) \<noteq> CHR ''-''))"
proof -
  define v3 where "v3 = filter (\<lambda>c. is_word_char c \<or> isspace c \<or> c = CHR ''-'')
     (filter (\<lambda>c. c \<noteq> CHR 0x60) (lower (strip t)))"
  define v5 where "v5 = sub_hyphen_runs (sub_space_runs ''-'' v3)"
  have s: "slugify_heading t = strip_hyphens v5"
    by (simp add: slugify_heading_def v5_def v3_def)
  have "\<forall>c \<in> set (lower (strip t)). lower_char c = c"
    by (auto simp: lower_def lower_char_idem)
  then have "\<forall>c \<in> set v3. (is_word_char c \<or> isspace c \<or> c = CHR ''-'') \<and> lower_char c = c"
    by (simp add: v3_def)
  then have "\<forall>c \<in> set (sub_space_runs ''-'' v3). (is_word_char c \<or> c = CHR ''-'') \<and> lower_char c = c"
    using set_sub_space_runs [of "''-''" v3] lower_hyphen by auto
  then have "slug_chars v5"
    using set_sub_hyphen_runs [of "sub_space_runs ''-'' v3"] by (auto simp: slug_chars_def v5_def)
  then have "slug_chars (strip_hyphens v5)"
    using set_strip_hyphens [of v5] by (auto simp: slug_chars_def)
  moreover have "no_double (strip_hyphens v5)"
    by (simp add: no_double_strip_hyphens no_double_sub_hyphen_runs v5_def)
  ultimately show ?thesis using strip_hyphens_ends [of v5] by (simp add: s)
qed

lemma slugify_idem: "slugify_heading (slugify_heading t) = slugify_heading t"
  using slug_shape [of t] by (intro slug_fixed) simp_all

section \<open>Properties of the heading and link loops\<close>

lemma heading_loop_append:
  "heading_loop (xs @ ys) st = heading_loop ys (heading_loop xs st)"
  by (simp add: heading_loop_def)

lemma heading_loop_Cons: "heading_loop (l # ls) st = heading_loop ls (heading_step l st)"
  by (simp add: heading_loop_def)

lemma heading_loop_Nil: "heading_loop [] st = st"
  by (simp add: heading_loop_def)

lemma heading_step_in_fence:
  "h_in_fence (heading_step l st) = (if is_fence l then \<not> h_in_fence st else h_in_fence st)"
  by (simp add: heading_step_def Let_def split: option.splits)

lemma heading_loop_in_fence:
  "h_in_fence (heading_loop ls st) = (if fence_open ls then \<not> h_in_fence st else h_in_fence st)"
proof (induction ls arbitrary: st)
  case Nil
  show ?case by (simp add: heading_loop_Nil fence_open_def)
next
  case (Cons l ls)
  show ?case
    by (simp add: heading_loop_Cons Cons.IH heading_step_in_fence fence_open_def)
qed

lemma heading_loop_inside:
  assumes "h_in_fence st" and "\<forall>l \<in> set ls. \<not> is_fence l"
  shows "heading_loop ls st = st"
  using assms
proof (induction ls)
  case Nil
  show ?case by (simp add: heading_loop_Nil)
next
  case (Cons l ls)
  then have "heading_step l st = st" by (simp add: heading_step_def)
  with Cons show ?case by (simp add: heading_loop_Cons)
qed

lemma heading_fence_block:
  assumes "\<not> h_in_fence st" and "is_fence opener" and "\<forall>l \<in> set inner. \<not> is_fence l"
    and "is_fence closer"
  shows "heading_loop ([opener] @ inner @ [closer]) st = st"
proof -
  have 1: "heading_step opener st = st\<lparr>h_in_fence := True\<rparr>"
    using assms(1,2) by (simp add: heading_step_def)
  have 2: "heading_loop inner (st\<lparr>h_in_fence := True\<rparr>) = st\<lparr>h_in_fence := True\<rparr>"
    using assms(3) by (intro heading_loop_inside) simp_all
  have 3: "heading_step closer (st\<lparr>h_in_fence := True\<rparr>) = st"
    using assms(1,4) by (simp add: heading_step_def)
  show ?thesis
    by (simp add: heading_loop_append heading_loop_Cons heading_loop_Nil 1 2 3)
qed

lemma links_loop_Nil: "links_loop n [] st = st"
  by (simp add: links_loop_def)

lemma links_loop_Cons:
  "links_loop n (l # ls) st = links_loop (Suc n) ls (links_step (n, l) st)"
  by (simp add: links_loop_def enumerate_simps)

lemma links_loop_append:
  "links_loop n (xs @ ys) st = links_loop (n + length xs) ys (links_loop n xs st)"
  by (induction xs arbitrary: n st) (simp_all add: links_loop_Nil links_loop_Cons)

lemma links_step_acc:
  "links_step (n, l) (acc, f) =
     (acc @ fst (links_step (n, l) ([], f)), snd (links_step (n, l) ([], f)))"
  by (simp add: links_step_def)

lemma links_loop_acc:
  "links_loop n ls (acc, f) =
     (acc @ fst (links_loop n ls ([], f)), snd (links_loop n ls ([], f)))"
proof (induction ls arbitrary: n acc f)
  case Nil
  show ?case by (simp add: links_loop_Nil)
next
  case (Cons l ls)
  obtain a g where s: "links_step (n, l) ([], f) = (a, g)" by (cases "links_step (n, l) ([], f)")
  have "links_step (n, l) (acc, f) = (acc @ a, g)"
    using links_step_acc [of n l acc f] s by simp
  then show ?case
    using Cons.IH [of "Suc n" "acc @ a" g] Cons.IH [of "Suc n" a g] s
    by (simp add: links_loop_Cons)
qed

lemma links_step_fence:
  "snd (links_step (n, l) (acc, f)) = (if is_fence l then \<not> f else f)"
  by (simp add: links_step_def)

lemma links_loop_fence:
  "snd (links_loop n ls (acc, f)) = (if fence_open ls then \<not> f else f)"
proof (induction ls arbitrary: n acc f)
  case Nil
  show ?case by (simp add: links_loop_Nil fence_open_def)
next
  case (Cons l ls)
  obtain a g where s: "links_step (n, l) (acc, f) = (a, g)" by (cases "links_step (n, l) (acc, f)")
  have g: "g = (if is_fence l then \<not> f else f)"
    using links_step_fence [of n l acc f] s by simp
  show ?case
    using Cons.IH [of "Suc n" a g] by (simp add: links_loop_Cons s g fence_open_def)
qed

lemma links_loop_inside:
  assumes "\<forall>l \<in> set ls. \<not> is_fence l"
  shows "links_loop n ls (acc, True) = (acc, True)"
  using assms
proof (induction ls arbitrary: n)
  case Nil
  show ?case by (simp add: links_loop_Nil)
next
  case (Cons l ls)
  then have "links_step (n, l) (acc, True) = (acc, True)" by (simp add: links_step_def)
  with Cons show ?case by (simp add: links_loop_Cons)
qed

lemma links_fence_block:
  assumes "is_fence opener" and "\<forall>l \<in> set inner. \<not> is_fence l" and "is_fence closer"
  shows "links_loop n ([opener] @ inner @ [closer]) (acc, False) = (acc, False)"
proof -
  have 1: "links_step (n, opener) (acc, False) = (acc, True)"
    using assms(1) by (simp add: links_step_def)
  have 2: "links_loop (Suc n) inner (acc, True) = (acc, True)"
    using assms(2) by (rule links_loop_inside)
  have 3: "\<And>m. links_step (m, closer) (acc, True) = (acc, False)"
    using assms(3) by (simp add: links_step_def)
  show ?thesis
    by (simp add: links_loop_append links_loop_Cons links_loop_Nil 1 2 3)
qed

text \<open>
  C3.  When the lines of a body are \<open>pre\<close>, an opening fence line (met outside a fence),
  lines \<open>inner\<close> without a fence line, the closing fence line, and \<open>post\<close>, the headings
  and anchors are those of \<open>pre\<close> followed by \<open>post\<close>, and the link references are those
  of \<open>pre\<close> followed by those of \<open>post\<close> at its line numbers: the lines \<open>inner\<close> add no
  heading, no anchor and no link reference, whatever they hold.
\<close>

theorem fenced_lines_contribute_nothing:
  assumes "splitlines body0 = pre @ [opener] @ inner @ [closer] @ post"
    and "\<not> fence_open pre"
    and "is_fence opener"
    and "\<forall>l \<in> set inner. \<not> is_fence l"
    and "is_fence closer"
  shows "extract_headings_and_anchors body0 = headings_of_lines (pre @ post) \<and>
         extract_links body0 =
           links_of_lines 1 pre @ links_of_lines (length pre + length inner + 3) post"
proof
  have closed: "\<not> h_in_fence (heading_loop pre heading_init)"
    using assms(2) by (simp add: heading_loop_in_fence heading_init_def)
  have "heading_loop (pre @ ([opener] @ inner @ [closer]) @ post) heading_init =
        heading_loop (pre @ post) heading_init"
    using heading_fence_block [OF closed assms(3,4,5)]
    by (simp only: heading_loop_append)
  then show "extract_headings_and_anchors body0 = headings_of_lines (pre @ post)"
    by (simp add: extract_headings_and_anchors_def headings_of_lines_def assms(1) Let_def)
next
  obtain a where pre: "links_loop 1 pre ([], False) = (a, False)"
    using links_loop_fence [of 1 pre "[]" False] assms(2)
    by (cases "links_loop 1 pre ([], False)") simp
  define blk where "blk = [opener] @ inner @ [closer]"
  have blk: "links_loop (1 + length pre) blk (a, False) = (a, False)"
    unfolding blk_def using assms(3,4,5) by (rule links_fence_block)
  have n: "1 + length pre + length blk = length pre + length inner + 3"
    by (simp add: blk_def)
  have "links_loop 1 (pre @ (blk @ post)) ([], False) =
        links_loop (1 + length pre) (blk @ post) (a, False)"
    by (simp only: links_loop_append [of 1 pre] pre)
  also have "\<dots> = links_loop (1 + length pre + length blk) post (a, False)"
    by (simp only: links_loop_append [of "1 + length pre" blk] blk)
  finally have "links_loop 1 (pre @ (blk @ post)) ([], False) =
        links_loop (length pre + length inner + 3) post (a, False)"
    by (simp only: n)
  then have "links_loop 1 (pre @ [opener] @ inner @ [closer] @ post) ([], False) =
        links_loop (length pre + length inner + 3) post (a, False)"
    by (simp only: blk_def append_assoc)
  also have "\<dots> = (a @ fst (links_loop (length pre + length inner + 3) post ([], False)),
      snd (links_loop (length pre + length inner + 3) post ([], False)))"
    by (rule links_loop_acc)
  finally have fin: "links_loop 1 (pre @ [opener] @ inner @ [closer] @ post) ([], False) =
      (a @ fst (links_loop (length pre + length inner + 3) post ([], False)),
       snd (links_loop (length pre + length inner + 3) post ([], False)))" .
  show "extract_links body0 =
      links_of_lines 1 pre @ links_of_lines (length pre + length inner + 3) post"
    using fin pre by (simp add: extract_links_def links_of_lines_def assms(1))
qed

theorem fenced_lines_contribute_nothing_witness:
  "extract_headings_and_anchors body_fenced = ([''A''], {''a''}) \<and>
   extract_links body_fenced = [LinkRef ''w'' 5]"
proof -
  have 1: "splitlines body_fenced = [''# A''] @ [''```''] @ [''# B [x](y)''] @ [''```''] @ [''[z](w)'']"
    by code_simp
  have 2: "\<not> fence_open [''# A'']" by code_simp
  have 3: "is_fence ''```''" by code_simp
  have 4: "\<forall>l \<in> set [''# B [x](y)'']. \<not> is_fence l" by code_simp
  have 5: "headings_of_lines ([''# A''] @ [''[z](w)'']) = ([''A''], {''a''})" by code_simp
  have 6: "links_of_lines 1 [''# A''] @
      links_of_lines (length [''# A''] + length [''# B [x](y)''] + 3) [''[z](w)''] = [LinkRef ''w'' 5]"
    by code_simp
  show ?thesis
    using fenced_lines_contribute_nothing [OF 1 2 3 4 3] 5 6 by simp
qed

lemma counts_ok_init: "counts_ok heading_init"
  by (simp add: counts_ok_def heading_init_def)

lemma count_list_snoc: "count_list (xs @ [x]) b = count_list xs b + (if x = b then 1 else 0)"
  by (induction xs) auto

lemma counts_ok_step: "counts_ok st \<Longrightarrow> counts_ok (heading_step l st)"
  by (auto simp: counts_ok_def heading_step_def Let_def count_list_snoc split: option.splits)

lemma counts_ok_loop: "counts_ok st \<Longrightarrow> counts_ok (heading_loop ls st)"
  by (induction ls arbitrary: st) (simp_all add: heading_loop_Nil heading_loop_Cons counts_ok_step)

lemma heading_step_heading:
  assumes "\<not> h_in_fence st" and "\<not> is_fence l" and "header_match l = Some g"
    and "slugify_heading (strip g) \<noteq> []"
  shows "h_headings (heading_step l st) = h_headings st @ [strip g]"
    and "h_anchors (heading_step l st) =
           insert (anchor_for (slugify_heading (strip g)) (h_counts st (slugify_heading (strip g))))
             (h_anchors st)"
  using assms by (simp_all add: heading_step_def Let_def)

lemma heading_step_no_slug:
  assumes "\<not> h_in_fence st" and "\<not> is_fence l" and "header_match l = Some g"
    and "slugify_heading (strip g) = []"
  shows "heading_step l st = st\<lparr>h_headings := h_headings st @ [strip g]\<rparr>"
  using assms by (simp add: heading_step_def Let_def)

lemma heading_step_headings_update:
  "\<exists>H'. heading_step m (st\<lparr>h_headings := H\<rparr>) = (heading_step m st)\<lparr>h_headings := H'\<rparr>"
proof (cases "is_fence m \<or> h_in_fence st \<or> header_match m = None")
  case True
  then have "heading_step m (st\<lparr>h_headings := H\<rparr>) = (heading_step m st)\<lparr>h_headings := H\<rparr>"
    by (auto simp: heading_step_def Let_def)
  then show ?thesis by blast
next
  case False
  then obtain g where g: "header_match m = Some g" by auto
  from False g have
    "heading_step m (st\<lparr>h_headings := H\<rparr>) = (heading_step m st)\<lparr>h_headings := H @ [strip g]\<rparr>"
    by (simp add: heading_step_def Let_def)
  then show ?thesis by blast
qed

lemma heading_loop_headings_update:
  "\<exists>H'. heading_loop ms (st\<lparr>h_headings := H\<rparr>) = (heading_loop ms st)\<lparr>h_headings := H'\<rparr>"
proof (induction ms arbitrary: st H)
  case Nil
  have "heading_loop [] (st\<lparr>h_headings := H\<rparr>) = (heading_loop [] st)\<lparr>h_headings := H\<rparr>"
    by (simp add: heading_loop_Nil)
  then show ?case by blast
next
  case (Cons m ms)
  obtain H1 where 1: "heading_step m (st\<lparr>h_headings := H\<rparr>) = (heading_step m st)\<lparr>h_headings := H1\<rparr>"
    using heading_step_headings_update by blast
  obtain H2 where 2: "heading_loop ms ((heading_step m st)\<lparr>h_headings := H1\<rparr>) =
      (heading_loop ms (heading_step m st))\<lparr>h_headings := H2\<rparr>"
    using Cons.IH by blast
  have "heading_loop (m # ms) (st\<lparr>h_headings := H\<rparr>) = (heading_loop (m # ms) st)\<lparr>h_headings := H2\<rparr>"
    by (simp only: heading_loop_Cons 1 2)
  then show ?case by blast
qed

text \<open>
  C6 (as amended).  \<^verbatim>\<open>slugify_heading\<close> is idempotent.  A heading line met outside a
  fence whose slug \<open>base\<close> is not empty adds its text to the headings and one anchor to the
  anchor set: \<open>base\<close> itself when no earlier heading of the document has this slug, and
  \<open>base\<close>, a hyphen and \<open>k\<close> when \<open>k > 0\<close> earlier headings have it.  A heading line met
  outside a fence whose slug is empty adds its text to the headings, adds no anchor and
  leaves every count as it was; wherever it stands in the document, the anchor set is that
  of the document without this line.
\<close>

theorem slug_idempotent_and_numbered:
  "slugify_heading (slugify_heading t) = slugify_heading t \<and>
   (splitlines body0 = ls @ [l] \<and> \<not> fence_open ls \<and> \<not> is_fence l \<and>
    header_match l = Some g \<and> slugify_heading (strip g) \<noteq> [] \<longrightarrow>
    extract_headings_and_anchors body0 =
      (fst (headings_of_lines ls) @ [strip g],
       insert
         (let base = slugify_heading (strip g);
              k = count_list (map slugify_heading (fst (headings_of_lines ls))) base
          in if k = 0 then base else base @ ''-'' @ str_nat k)
         (snd (headings_of_lines ls)))) \<and>
   (splitlines body0 = ls @ [l] \<and> \<not> fence_open ls \<and> \<not> is_fence l \<and>
    header_match l = Some g \<and> slugify_heading (strip g) = [] \<longrightarrow>
    extract_headings_and_anchors body0 =
      (fst (headings_of_lines ls) @ [strip g], snd (headings_of_lines ls)) \<and>
    h_counts (heading_loop (splitlines body0) heading_init) =
      h_counts (heading_loop ls heading_init)) \<and>
   (splitlines body0 = pre @ [l] @ post \<and> \<not> fence_open pre \<and> \<not> is_fence l \<and>
    header_match l = Some g \<and> slugify_heading (strip g) = [] \<longrightarrow>
    snd (extract_headings_and_anchors body0) = snd (headings_of_lines (pre @ post)))"
  (is "?I \<and> (?A \<longrightarrow> ?B) \<and> (?C \<longrightarrow> ?D) \<and> (?E \<longrightarrow> ?F)")
proof (intro conjI)
  show ?I by (rule slugify_idem)
next
  show "?A \<longrightarrow> ?B"
  proof
    assume a: ?A
    define st where "st = heading_loop ls heading_init"
    define base where "base = slugify_heading (strip g)"
    have closed: "\<not> h_in_fence st"
      using a by (simp add: st_def heading_loop_in_fence heading_init_def)
    have "counts_ok st"
      unfolding st_def by (rule counts_ok_loop [OF counts_ok_init])
    then have k: "h_counts st base = count_list (map slugify_heading (h_headings st)) base"
      using a by (simp add: counts_ok_def base_def)
    have step: "h_headings (heading_step l st) = h_headings st @ [strip g]"
      "h_anchors (heading_step l st) = insert (anchor_for base (h_counts st base)) (h_anchors st)"
      using heading_step_heading [OF closed, of l g] a by (simp_all add: base_def)
    have "heading_loop (ls @ [l]) heading_init = heading_step l st"
      by (simp add: heading_loop_append heading_loop_Cons heading_loop_Nil st_def)
    then have "headings_of_lines (ls @ [l]) =
        (h_headings st @ [strip g], insert (anchor_for base (h_counts st base)) (h_anchors st))"
      by (simp add: headings_of_lines_def step Let_def)
    moreover have "headings_of_lines ls = (h_headings st, h_anchors st)"
      by (simp add: headings_of_lines_def st_def Let_def)
    ultimately show ?B
      using a k by (simp add: extract_headings_and_anchors_def anchor_for_def base_def Let_def)
  qed
next
  show "?C \<longrightarrow> ?D"
  proof
    assume c: ?C
    define st where "st = heading_loop ls heading_init"
    have closed: "\<not> h_in_fence st"
      using c by (simp add: st_def heading_loop_in_fence heading_init_def)
    have step: "heading_step l st = st\<lparr>h_headings := h_headings st @ [strip g]\<rparr>"
      using heading_step_no_slug [OF closed, of l g] c by simp
    have loop: "heading_loop (ls @ [l]) heading_init = st\<lparr>h_headings := h_headings st @ [strip g]\<rparr>"
      by (simp add: heading_loop_append heading_loop_Cons heading_loop_Nil st_def [symmetric] step)
    have "headings_of_lines (ls @ [l]) = (h_headings st @ [strip g], h_anchors st)"
      by (simp add: headings_of_lines_def loop Let_def)
    moreover have "headings_of_lines ls = (h_headings st, h_anchors st)"
      by (simp add: headings_of_lines_def st_def Let_def)
    moreover have "h_counts (heading_loop (ls @ [l]) heading_init) = h_counts st"
      by (simp add: loop)
    ultimately show ?D
      using c by (simp add: extract_headings_and_anchors_def st_def)
  qed
next
  show "?E \<longrightarrow> ?F"
  proof
    assume e: ?E
    define st where "st = heading_loop pre heading_init"
    have closed: "\<not> h_in_fence st"
      using e by (simp add: st_def heading_loop_in_fence heading_init_def)
    have step: "heading_step l st = st\<lparr>h_headings := h_headings st @ [strip g]\<rparr>"
      using heading_step_no_slug [OF closed, of l g] e by simp
    have "heading_loop (pre @ [l] @ post) heading_init =
        heading_loop post (st\<lparr>h_headings := h_headings st @ [strip g]\<rparr>)"
      by (simp add: heading_loop_append heading_loop_Cons heading_loop_Nil st_def [symmetric] step)
    moreover obtain H' where
      "heading_loop post (st\<lparr>h_headings := h_headings st @ [strip g]\<rparr>) =
         (heading_loop post st)\<lparr>h_headings := H'\<rparr>"
      using heading_loop_headings_update by blast
    moreover have "heading_loop (pre @ post) heading_init = heading_loop post st"
      by (simp add: heading_loop_append st_def)
    ultimately have "h_anchors (heading_loop (pre @ [l] @ post) heading_init) =
        h_anchors (heading_loop (pre @ post) heading_init)"
      by simp
    then show ?F
      using e by (simp add: extract_headings_and_anchors_def headings_of_lines_def Let_def)
  qed
qed

theorem slug_idempotent_and_numbered_witness:
  "slugify_heading (slugify_heading ''Hello, World!'') = slugify_heading ''Hello, World!'' \<and>
   extract_headings_and_anchors body_twice = ([''Intro'', ''Intro''], {''intro'', ''intro-1''}) \<and>
   extract_headings_and_anchors body_no_slug = ([''!!!'', ''!!!''], {}) \<and>
   h_counts (heading_loop (splitlines body_no_slug) heading_init) =
     h_counts (heading_loop [''# !!!''] heading_init) \<and>
   snd (extract_headings_and_anchors body_mixed) = {''intro'', ''intro-1''}"
proof -
  have 1: "splitlines body_twice = [''# Intro''] @ [''# Intro'']" by code_simp
  have 2: "\<not> fence_open [''# Intro'']" by code_simp
  have 3: "\<not> is_fence ''# Intro''" by code_simp
  have 4: "header_match ''# Intro'' = Some ''Intro''" by code_simp
  have 5: "slugify_heading (strip ''Intro'') \<noteq> []" by code_simp
  have 6: "(fst (headings_of_lines [''# Intro'']) @ [strip ''Intro''],
       insert
         (let base = slugify_heading (strip ''Intro'');
              k = count_list (map slugify_heading (fst (headings_of_lines [''# Intro'']))) base
          in if k = 0 then base else base @ ''-'' @ str_nat k)
         (snd (headings_of_lines [''# Intro'']))) = ([''Intro'', ''Intro''], {''intro'', ''intro-1''})"
    by code_simp
  have 7: "splitlines body_no_slug = [''# !!!''] @ [''# !!!'']" by code_simp
  have 8: "\<not> fence_open [''# !!!'']" by code_simp
  have 9: "\<not> is_fence ''# !!!''" by code_simp
  have 10: "header_match ''# !!!'' = Some ''!!!''" by code_simp
  have 11: "slugify_heading (strip ''!!!'') = []" by code_simp
  have 12: "(fst (headings_of_lines [''# !!!'']) @ [strip ''!!!''], snd (headings_of_lines [''# !!!''])) =
      ([''!!!'', ''!!!''], {})"
    by code_simp
  have 13: "splitlines body_mixed = [''# Intro''] @ [''# !!!''] @ [''# Intro'']" by code_simp
  have 14: "snd (headings_of_lines ([''# Intro''] @ [''# Intro''])) = {''intro'', ''intro-1''}"
    by code_simp
  have a: "extract_headings_and_anchors body_twice = ([''Intro'', ''Intro''], {''intro'', ''intro-1''})"
    using slug_idempotent_and_numbered [of _ body_twice "[''# Intro'']" "''# Intro''" "''Intro''"] 1 2 3 4 5 6
    by simp
  have b: "extract_headings_and_anchors body_no_slug = ([''!!!'', ''!!!''], {}) \<and>
      h_counts (heading_loop (splitlines body_no_slug) heading_init) =
        h_counts (heading_loop [''# !!!''] heading_init)"
    using slug_idempotent_and_numbered [of _ body_no_slug "[''# !!!'']" "''# !!!''" "''!!!''"] 7 8 9 10 11 12
    by simp
  have c: "snd (extract_headings_and_anchors body_mixed) = {''intro'', ''intro-1''}"
    using slug_idempotent_and_numbered [of _ body_mixed _ "''# !!!''" "''!!!''" "[''# Intro'']" "[''# Intro'']"] 13 2 9 10 11 14
    by simp
  have d: "slugify_heading (slugify_heading ''Hello, World!'') = slugify_heading ''Hello, World!''"
    using slug_idempotent_and_numbered [of "''Hello, World!''"] by blast
  from a b c d show ?thesis by blast
qed

text \<open>
  The claim C6 as stated fails where the slug is empty: the loop skips such a heading
  before it counts it, so two headings \<^verbatim>\<open>!!!\<close> are both extracted and neither the
  slug nor the slug followed by \<^verbatim>\<open>-1\<close> becomes an anchor.
\<close>

theorem empty_slug_counterexample:
  "fst (extract_headings_and_anchors body_no_slug) = [''!!!'', ''!!!''] \<and>
   slugify_heading ''!!!'' \<notin> snd (extract_headings_and_anchors body_no_slug) \<and>
   slugify_heading ''!!!'' @ ''-1'' \<notin> snd (extract_headings_and_anchors body_no_slug)"
  by code_simp

section \<open>Properties of the metadata parser\<close>

lemma parse_loop_Nil: "parse_loop n [] st = st"
  by (simp add: parse_loop_def)

lemma parse_loop_Cons:
  "parse_loop n (l # ls) st = parse_loop (Suc n) ls (parse_step (n, l) st)"
  by (simp add: parse_loop_def)

lemma parse_loop_append:
  "parse_loop n (xs @ ys) st = parse_loop (n + length xs) ys (parse_loop n xs st)"
  by (induction xs arbitrary: n st) (simp_all add: parse_loop_Nil parse_loop_Cons)

lemma parse_step_skip: "skip_line m \<Longrightarrow> parse_step (i, m) st = st"
  by (auto simp: parse_step_def skip_line_def Let_def)

lemma parse_step_item:
  assumes "\<not> skip_line m" and "list_item_match (rstrip m) = Some item"
  shows "parse_step (i, m) st =
     (case p_current_list_key st of
        None \<Rightarrow> st\<lparr>p_errors := p_errors st @ [orphan_error i]\<rparr>
      | Some k \<Rightarrow>
          (case map_of (p_data st) k of
             Some (FList xs) \<Rightarrow>
               st\<lparr>p_data := AList.update k (FList (xs @ [parse_scalar item])) (p_data st)\<rparr>
           | _ \<Rightarrow> st\<lparr>p_errors := p_errors st @ [orphan_error i]\<rparr>))"
  using assms by (simp add: parse_step_def skip_line_def Let_def)

lemma parse_step_bad:
  assumes "\<not> skip_line m" and "list_item_match (rstrip m) = None" and "key_match (rstrip m) = None"
  shows "parse_step (i, m) st =
     st\<lparr>p_errors := p_errors st @ [unsupported_error i (rstrip m)], p_current_list_key := None\<rparr>"
  using assms by (simp add: parse_step_def skip_line_def Let_def)

lemma parse_step_key:
  assumes "\<not> skip_line m" and "list_item_match (rstrip m) = None"
    and "key_match (rstrip m) = Some (key, v)"
  shows "parse_step (i, m) st =
     st\<lparr>p_data := AList.update key (key_line_value v) (p_data st),
        p_current_list_key := (if v = [] then Some key else None)\<rparr>"
  using assms by (simp add: parse_step_def skip_line_def Let_def key_line_value_def)

lemma key_of_line_Some:
  "key_of_line m = Some k \<longleftrightarrow>
     (\<not> skip_line m \<and> list_item_match (rstrip m) = None \<and> (\<exists>v. key_match (rstrip m) = Some (k, v)))"
  by (auto simp: key_of_line_def skip_line_def Let_def)

lemma line_cases:
  obtains (skip) "skip_line m"
  | (item) item where "\<not> skip_line m" "list_item_match (rstrip m) = Some item"
  | (bad) "\<not> skip_line m" "list_item_match (rstrip m) = None" "key_match (rstrip m) = None"
  | (key) key v where "\<not> skip_line m" "list_item_match (rstrip m) = None"
      "key_match (rstrip m) = Some (key, v)"
  by (cases "list_item_match (rstrip m)"; cases "key_match (rstrip m)") auto

lemma same_for_step:
  assumes "same_for k s s'" and "key_of_line m \<noteq> Some k"
  shows "same_for k (parse_step (i, m) s) (parse_step (j, m) s')"
proof (cases m rule: line_cases)
  case skip
  with assms(1) show ?thesis by (simp add: parse_step_skip)
next
  case (item item)
  have cur: "p_current_list_key s' = p_current_list_key s"
    and val: "map_of (p_data s') k = map_of (p_data s) k"
    using assms(1) by (simp_all add: same_for_def)
  show ?thesis
  proof (cases "p_current_list_key s")
    case None
    then show ?thesis
      using cur val by (simp add: parse_step_item [OF item] same_for_def)
  next
    case (Some c)
    show ?thesis
    proof (cases "c = k")
      case True
      then show ?thesis
        using cur val Some
        by (simp add: parse_step_item [OF item] same_for_def update_conv'
            split: option.splits fmvalue.splits)
    next
      case False
      then show ?thesis
        using cur val Some
        by (simp add: parse_step_item [OF item] same_for_def update_conv'
            split: option.splits fmvalue.splits)
    qed
  qed
next
  case bad
  with assms(1) show ?thesis by (simp add: parse_step_bad same_for_def)
next
  case (key key v)
  with assms(2) have "key \<noteq> k" by (auto simp: key_of_line_Some)
  with assms(1) show ?thesis
    by (simp add: parse_step_key [OF key] same_for_def update_conv')
qed

lemma same_for_loop:
  assumes "same_for k s s'" and "\<forall>m \<in> set ls. key_of_line m \<noteq> Some k"
  shows "same_for k (parse_loop i ls s) (parse_loop j ls s')"
  using assms
proof (induction ls arbitrary: i j s s')
  case Nil
  then show ?case by (simp add: parse_loop_Nil)
next
  case (Cons m ls)
  have "same_for k (parse_step (i, m) s) (parse_step (j, m) s')"
    using Cons.prems by (intro same_for_step) simp_all
  then show ?case using Cons.prems by (simp add: parse_loop_Cons Cons.IH)
qed

lemma settled_step:
  assumes "settled k x s" and "key_of_line m \<noteq> Some k"
  shows "settled k x (parse_step (i, m) s)"
proof (cases m rule: line_cases)
  case skip
  with assms(1) show ?thesis by (simp add: parse_step_skip)
next
  case (item item)
  with assms(1) show ?thesis
    by (auto simp: parse_step_item [OF item] settled_def update_conv'
        split: option.splits fmvalue.splits)
next
  case bad
  with assms(1) show ?thesis by (simp add: parse_step_bad settled_def)
next
  case (key key v)
  with assms(2) have "key \<noteq> k" by (auto simp: key_of_line_Some)
  with assms(1) show ?thesis
    by (simp add: parse_step_key [OF key] settled_def update_conv')
qed

lemma settled_loop:
  assumes "settled k x s" and "\<forall>m \<in> set ls. key_of_line m \<noteq> Some k"
  shows "settled k x (parse_loop i ls s)"
  using assms
proof (induction ls arbitrary: i s)
  case Nil
  then show ?case by (simp add: parse_loop_Nil)
next
  case (Cons m ls)
  have "settled k x (parse_step (i, m) s)"
    using Cons.prems by (intro settled_step) simp_all
  then show ?case using Cons.prems by (simp add: parse_loop_Cons Cons.IH)
qed

text \<open>
  C9.  Let \<open>l\<close> be a key line with key \<open>k\<close> in a block, with no key line for \<open>k\<close> after
  it (so \<open>l\<close> is the last one; earlier lines may have the same key).  Then the value of
  \<open>k\<close> in the returned mapping is the one that parsing \<open>l\<close> and the lines after it alone
  gives; when \<open>l\<close> carries a value (scalar or inline list), it is exactly that value.
  The line \<open>l\<close> adds no error, whether or not its key was met before.
\<close>

theorem last_key_line_wins:
  assumes "splitlines raw = pre @ [l] @ post"
    and "key_of_line l = Some k"
    and "\<forall>m \<in> set post. key_of_line m \<noteq> Some k"
  shows "map_of (fst (parse_yamlish_frontmatter raw)) k = map_of (fst (parse_lines (l # post))) k \<and>
         (\<exists>v. key_match (rstrip l) = Some (k, v) \<and>
              (v \<noteq> [] \<longrightarrow>
               map_of (fst (parse_yamlish_frontmatter raw)) k = Some (key_line_value v))) \<and>
         snd (parse_lines (pre @ [l])) = snd (parse_lines pre)"
proof -
  define s0 where "s0 = parse_loop 1 pre parse_init"
  define s where "s = parse_step (1 + length pre, l) s0"
  define s' where "s' = parse_step (1, l) parse_init"
  define n where "n = Suc (1 + length pre)"
  from assms(2) obtain v where l: "\<not> skip_line l" "list_item_match (rstrip l) = None"
    "key_match (rstrip l) = Some (k, v)"
    by (auto simp: key_of_line_Some)
  have s: "s = s0\<lparr>p_data := AList.update k (key_line_value v) (p_data s0),
        p_current_list_key := (if v = [] then Some k else None)\<rparr>"
    unfolding s_def by (rule parse_step_key [OF l])
  have s': "s' = parse_init\<lparr>p_data := AList.update k (key_line_value v) (p_data parse_init),
        p_current_list_key := (if v = [] then Some k else None)\<rparr>"
    unfolding s'_def by (rule parse_step_key [OF l])
  have same: "same_for k s s'"
    by (simp add: s s' same_for_def update_conv')
  have full: "parse_loop 1 (pre @ [l] @ post) parse_init = parse_loop n post s"
    unfolding n_def s_def s0_def
    by (simp only: parse_loop_append parse_loop_Cons append_Cons append_Nil add_Suc_right
        add_0_right list.size)
  have part: "parse_loop 1 (l # post) parse_init = parse_loop (Suc 1) post s'"
    unfolding s'_def by (rule parse_loop_Cons)
  have sim: "same_for k (parse_loop n post s) (parse_loop (Suc 1) post s')"
    using same assms(3) by (rule same_for_loop)
  have fm: "fst (parse_yamlish_frontmatter raw) = p_data (parse_loop n post s)"
    unfolding parse_yamlish_frontmatter_def parse_lines_def assms(1) full by (simp add: Let_def)
  have fm': "fst (parse_lines (l # post)) = p_data (parse_loop (Suc 1) post s')"
    unfolding parse_lines_def part by (simp add: Let_def)
  have 1: "map_of (fst (parse_yamlish_frontmatter raw)) k = map_of (fst (parse_lines (l # post))) k"
    using sim by (simp only: fm fm' same_for_def)
  have 2: "v \<noteq> [] \<longrightarrow> map_of (fst (parse_yamlish_frontmatter raw)) k = Some (key_line_value v)"
  proof
    assume "v \<noteq> []"
    then have "settled k (Some (key_line_value v)) s"
      by (simp add: s settled_def update_conv')
    then have "settled k (Some (key_line_value v)) (parse_loop n post s)"
      using assms(3) by (rule settled_loop)
    then show "map_of (fst (parse_yamlish_frontmatter raw)) k = Some (key_line_value v)"
      by (simp only: fm settled_def)
  qed
  have "parse_loop 1 (pre @ [l]) parse_init = s"
    unfolding s_def s0_def
    by (simp only: parse_loop_append parse_loop_Cons parse_loop_Nil)
  then have 3: "snd (parse_lines (pre @ [l])) = snd (parse_lines pre)"
    by (simp add: parse_lines_def Let_def s s0_def)
  from 1 2 3 l(3) show ?thesis by blast
qed

theorem last_key_line_wins_witness:
  "map_of (fst (parse_yamlish_frontmatter raw_duplicate)) ''title'' = Some (Scalar (SStr ''B'')) \<and>
   snd (parse_lines ([''title: A'', ''tags:'', ''- x''] @ [''title: B''])) = []"
proof -
  have 1: "splitlines raw_duplicate =
      [''title: A'', ''tags:'', ''- x''] @ [''title: B''] @ [''owner: me'']" by code_simp
  have 2: "key_of_line ''title: B'' = Some ''title''" by code_simp
  have 3: "\<forall>m \<in> set [''owner: me'']. key_of_line m \<noteq> Some ''title''" by code_simp
  have 4: "key_match (rstrip ''title: B'') = Some (''title'', ''B'')" by code_simp
  have 5: "key_line_value ''B'' = Scalar (SStr ''B'')" by code_simp
  have 6: "snd (parse_lines [''title: A'', ''tags:'', ''- x'']) = []" by code_simp
  from last_key_line_wins [OF 1 2 3]
  obtain v where "key_match (rstrip ''title: B'') = Some (''title'', v)"
    and "v \<noteq> [] \<longrightarrow> map_of (fst (parse_yamlish_frontmatter raw_duplicate)) ''title'' =
        Some (key_line_value v)"
    and "snd (parse_lines ([''title: A'', ''tags:'', ''- x''] @ [''title: B''])) =
        snd (parse_lines [''title: A'', ''tags:'', ''- x''])"
    by blast
  with 4 5 6 show ?thesis by simp
qed

lemma find_end_idx_None:
  "\<forall>l \<in> set ls. strip l \<noteq> FRONTMATTER_DELIM \<Longrightarrow> find_end_idx i ls = None"
  by (induction ls arbitrary: i) simp_all

lemma find_end_idx_Some:
  assumes "\<forall>l \<in> set between. strip l \<noteq> FRONTMATTER_DELIM" and "strip closer = FRONTMATTER_DELIM"
  shows "find_end_idx i (between @ closer # after) = Some (i + length between)"
  using assms by (induction between arbitrary: i) simp_all

text \<open>
  C4 (as amended).  The four outcomes of \<^verbatim>\<open>split_frontmatter\<close>: the text does not start
  with the delimiter; it does, but its first line without surrounding white space is not
  the delimiter; the first line is the delimiter, and no later line is (without
  surrounding white space); otherwise the lines between the first line and the first later
  delimiter line are parsed, and the lines after it, joined by line feeds, are the body.
\<close>

theorem split_frontmatter_cases:
  "(\<not> startswith text0 FRONTMATTER_DELIM \<longrightarrow>
      split_frontmatter text0 = ([], text0, [''missing frontmatter start delimiter''])) \<and>
   (startswith text0 FRONTMATTER_DELIM \<and> splitlines text0 = first # rest \<and>
    strip first \<noteq> FRONTMATTER_DELIM \<longrightarrow>
      split_frontmatter text0 = ([], text0, [''invalid frontmatter start delimiter''])) \<and>
   (startswith text0 FRONTMATTER_DELIM \<and> splitlines text0 = first # rest \<and>
    strip first = FRONTMATTER_DELIM \<and> (\<forall>l \<in> set rest. strip l \<noteq> FRONTMATTER_DELIM) \<longrightarrow>
      split_frontmatter text0 = ([], text0, [''missing frontmatter end delimiter''])) \<and>
   (startswith text0 FRONTMATTER_DELIM \<and> splitlines text0 = first # between @ [closer] @ after \<and>
    strip first = FRONTMATTER_DELIM \<and> (\<forall>l \<in> set between. strip l \<noteq> FRONTMATTER_DELIM) \<and>
    strip closer = FRONTMATTER_DELIM \<longrightarrow>
      split_frontmatter text0 =
        (fst (parse_yamlish_frontmatter (join nl between)), join nl after,
         snd (parse_yamlish_frontmatter (join nl between))))"
proof (intro conjI impI)
  assume "\<not> startswith text0 FRONTMATTER_DELIM"
  then show "split_frontmatter text0 = ([], text0, [''missing frontmatter start delimiter''])"
    by (simp add: split_frontmatter_def)
next
  assume "startswith text0 FRONTMATTER_DELIM \<and> splitlines text0 = first # rest \<and>
    strip first \<noteq> FRONTMATTER_DELIM"
  then show "split_frontmatter text0 = ([], text0, [''invalid frontmatter start delimiter''])"
    by (simp add: split_frontmatter_def)
next
  assume a: "startswith text0 FRONTMATTER_DELIM \<and> splitlines text0 = first # rest \<and>
    strip first = FRONTMATTER_DELIM \<and> (\<forall>l \<in> set rest. strip l \<noteq> FRONTMATTER_DELIM)"
  then have "find_end_idx 1 rest = None" by (simp add: find_end_idx_None)
  with a show "split_frontmatter text0 = ([], text0, [''missing frontmatter end delimiter''])"
    by (simp add: split_frontmatter_def)
next
  assume a: "startswith text0 FRONTMATTER_DELIM \<and>
    splitlines text0 = first # between @ [closer] @ after \<and>
    strip first = FRONTMATTER_DELIM \<and> (\<forall>l \<in> set between. strip l \<noteq> FRONTMATTER_DELIM) \<and>
    strip closer = FRONTMATTER_DELIM"
  then have idx: "find_end_idx 1 (between @ closer # after) = Some (1 + length between)"
    by (intro find_end_idx_Some) simp_all
  have mid: "drop 1 (take (1 + length between) (first # between @ [closer] @ after)) = between"
    by simp
  have tail: "drop (1 + length between + 1) (first # between @ [closer] @ after) = after"
    by simp
  obtain fm errs where p: "parse_yamlish_frontmatter (join nl between) = (fm, errs)"
    by (cases "parse_yamlish_frontmatter (join nl between)")
  show "split_frontmatter text0 =
        (fst (parse_yamlish_frontmatter (join nl between)), join nl after,
         snd (parse_yamlish_frontmatter (join nl between)))"
    using a idx p by (simp add: split_frontmatter_def)
qed

theorem split_frontmatter_cases_witness:
  "split_frontmatter ''# no block'' = ([], ''# no block'', [''missing frontmatter start delimiter'']) \<and>
   split_frontmatter text_invalid_start =
     ([], text_invalid_start, [''invalid frontmatter start delimiter'']) \<and>
   split_frontmatter text_unterminated =
     ([], text_unterminated, [''missing frontmatter end delimiter'']) \<and>
   split_frontmatter text_with_block =
     ([(''title'', Scalar (SStr ''T''))], ''# H'' @ nl @ ''more'', [])"
proof -
  have 1: "\<not> startswith ''# no block'' FRONTMATTER_DELIM" by code_simp
  have 2: "startswith text_invalid_start FRONTMATTER_DELIM \<and>
      splitlines text_invalid_start = ''---x'' # [''---'', ''body''] \<and>
      strip ''---x'' \<noteq> FRONTMATTER_DELIM" by code_simp
  have 3: "startswith text_unterminated FRONTMATTER_DELIM \<and>
      splitlines text_unterminated = ''---'' # [''title: T''] \<and>
      strip ''---'' = FRONTMATTER_DELIM \<and>
      (\<forall>l \<in> set [''title: T'']. strip l \<noteq> FRONTMATTER_DELIM)" by code_simp
  have 4: "startswith text_with_block FRONTMATTER_DELIM \<and>
      splitlines text_with_block = ''---'' # [''title: T''] @ ['' --- ''] @ [''# H'', ''more''] \<and>
      strip ''---'' = FRONTMATTER_DELIM \<and>
      (\<forall>l \<in> set [''title: T'']. strip l \<noteq> FRONTMATTER_DELIM) \<and>
      strip '' --- '' = FRONTMATTER_DELIM" by code_simp
  have 5: "parse_yamlish_frontmatter (join nl [''title: T'']) = ([(''title'', Scalar (SStr ''T''))], [])"
    by code_simp
  have 6: "join nl [''# H'', ''more''] = ''# H'' @ nl @ ''more''" by code_simp
  note c = split_frontmatter_cases
  show ?thesis
    using c [of "''# no block''", THEN conjunct1] 1
      c [of text_invalid_start "''---x''" "[''---'', ''body'']", THEN conjunct2, THEN conjunct1] 2
      c [of text_unterminated "''---''" "[''title: T'']", THEN conjunct2, THEN conjunct2, THEN conjunct1] 3
      c [of text_with_block "''---''" _ "[''title: T'']" "'' --- ''" "[''# H'', ''more'']",
        THEN conjunct2, THEN conjunct2, THEN conjunct2] 4 5 6
    by simp
qed

text \<open>
  The claim C4 as stated fails for a text whose first line starts with the delimiter but
  is not the delimiter line: the result is the fourth error, not the missing-start error,
  although a later delimiter line exists.
\<close>

theorem invalid_start_counterexample:
  "hd (splitlines text_invalid_start) \<noteq> FRONTMATTER_DELIM \<and>
   split_frontmatter text_invalid_start =
     ([], text_invalid_start, [''invalid frontmatter start delimiter'']) \<and>
   split_frontmatter text_invalid_start \<noteq>
     ([], text_invalid_start, [''missing frontmatter start delimiter''])"
  by code_simp

text \<open>The keys of the mapping the parser returns are pairwise distinct, as those of a \<^verbatim>\<open>dict\<close>.\<close>

lemma parse_step_distinct:
  assumes "distinct (map fst (p_data st))"
  shows "distinct (map fst (p_data (parse_step (i, m) st)))"
proof (cases m rule: line_cases)
  case skip
  with assms show ?thesis by (simp add: parse_step_skip)
next
  case (item x)
  have "parse_step (i, m) st = st\<lparr>p_errors := p_errors st @ [orphan_error i]\<rparr> \<or>
        (\<exists>k v. parse_step (i, m) st = st\<lparr>p_data := AList.update k v (p_data st)\<rparr>)"
    unfolding parse_step_item [OF item]
    by (simp split: option.split fmvalue.split) blast
  then show ?thesis
  proof
    assume "parse_step (i, m) st = st\<lparr>p_errors := p_errors st @ [orphan_error i]\<rparr>"
    with assms show ?thesis by simp
  next
    assume "\<exists>k v. parse_step (i, m) st = st\<lparr>p_data := AList.update k v (p_data st)\<rparr>"
    then obtain k v where "parse_step (i, m) st = st\<lparr>p_data := AList.update k v (p_data st)\<rparr>"
      by blast
    with assms show ?thesis by (simp add: distinct_update)
  qed
next
  case bad
  with assms show ?thesis by (simp add: parse_step_bad)
next
  case (key k v)
  with assms show ?thesis by (simp add: parse_step_key distinct_update)
qed

lemma parse_loop_distinct:
  "distinct (map fst (p_data st)) \<Longrightarrow> distinct (map fst (p_data (parse_loop i ls st)))"
  by (induction ls arbitrary: i st) (simp_all add: parse_loop_Nil parse_loop_Cons parse_step_distinct)

lemma parse_keys_distinct: "distinct (map fst (fst (parse_yamlish_frontmatter raw)))"
  using parse_loop_distinct [of parse_init 1 "splitlines raw"]
  by (simp add: parse_yamlish_frontmatter_def parse_lines_def parse_init_def Let_def)

section \<open>Properties of the metadata check and of the collector\<close>

text \<open>The checks that go through the documents one by one distribute over a corpus in two parts.\<close>

lemma for_records_append:
  "for_records f (xs @ ys) =
     (case for_records f xs of
        Inl e \<Rightarrow> Inl e
      | Inr ps \<Rightarrow> (case for_records f ys of Inl e \<Rightarrow> Inl e | Inr qs \<Rightarrow> Inr (ps @ qs)))"
  by (induction xs) (auto split: sum.splits)

lemma for_records_single: "for_records f [r] = f r"
  by (cases "f r") simp_all

lemma no_flag_missing: "filter is_stale_flag (missing_field_problems fnames record) = []"
  by (induction fnames) (simp_all add: missing_field_problems_def is_stale_flag_def startswith_def)

lemma no_flag_title: "filter is_stale_flag (title_problems record) = []"
  by (simp add: title_problems_def is_stale_flag_def startswith_def split: option.splits)

lemma no_flag_one_of:
  "key \<in> {''category'', ''owner'', ''status''} \<Longrightarrow>
   filter is_stale_flag (one_of_problems key allowed record) = []"
  by (auto simp: one_of_problems_def is_stale_flag_def startswith_def)

lemma no_flag_superseded: "filter is_stale_flag (superseded_problems record) = []"
  by (simp add: superseded_problems_def is_stale_flag_def startswith_def)

lemma no_flag_list_field:
  "list_field \<in> {''audience'', ''invariants''} \<Longrightarrow>
   filter is_stale_flag (list_field_problems list_field record) = []"
  by (auto simp: list_field_problems_def is_stale_flag_def startswith_def split: option.splits)

lemma no_flag_taxonomy:
  "taxonomy_problems w c record = Inr ps \<Longrightarrow> filter is_stale_flag ps = []"
  by (auto simp: taxonomy_problems_def is_stale_flag_def startswith_def Let_def
      split: sum.splits option.splits if_splits list.splits)

lemma flag_reviewed:
  assumes "fm_str (frontmatter record) ''last_reviewed'' = Some v"
    and "parse_review_date w v = Some d"
  shows "filter is_stale_flag (reviewed_problems w sd td record) =
     (if td - d > sd
      then [Problem ''frontmatter'' (rel_path record) (stale_message (td - d) sd) None] else [])"
  using assms
  by (simp add: reviewed_problems_def is_stale_flag_def startswith_def stale_message_def Let_def)

lemma taxonomy_returns:
  "relative_to (path record) (docs_root w) = Inr (part # parts) \<Longrightarrow>
   \<exists>ps. taxonomy_problems w c record = Inr ps"
  by (cases parts) (simp_all add: taxonomy_problems_def Let_def)

text \<open>
  C2.  For a document under the documents root whose \<^verbatim>\<open>last_reviewed\<close> is a string that
  parses as the date \<open>d\<close>, with the threshold \<open>sd\<close> and the current date \<open>td\<close> as the
  environment and the contract give them: the metadata check returns, and among its
  diagnostics there is a stale flag exactly when \<open>td - d > sd\<close> (then exactly one, with
  both numbers in its message).  A review \<open>sd + 1\<close> days before \<open>td\<close> is flagged, one \<open>sd\<close>
  days before \<open>td\<close> is not.
\<close>

theorem stale_iff_older_than_threshold:
  assumes "fm_str (frontmatter record) ''last_reviewed'' = Some v"
    and "parse_review_date w v = Some d"
    and "stale_days_of w c = Inr sd"
    and "current_date w = Inr td"
    and "relative_to (path record) (docs_root w) = Inr (part # parts)"
  shows "\<exists>ps. validate_frontmatter w [record] c = Inr ps \<and>
           filter is_stale_flag ps =
             (if td - d > sd
              then [Problem ''frontmatter'' (rel_path record) (stale_message (td - d) sd) None]
              else []) \<and>
           (d = td - (sd + 1) \<longrightarrow> filter is_stale_flag ps \<noteq> []) \<and>
           (d = td - sd \<longrightarrow> filter is_stale_flag ps = [])"
proof -
  from assms(1) have ne: "frontmatter record \<noteq> []" by (auto simp: fm_str_def)
  from taxonomy_returns [OF assms(5)] obtain tx where tx: "taxonomy_problems w c record = Inr tx"
    by blast
  define ps where "ps = missing_field_problems (get_or [] (required_frontmatter c)) record
     @ title_problems record
     @ one_of_problems ''category'' (get_or [] (allowed_categories c)) record
     @ one_of_problems ''owner'' (get_or [] (allowed_owners c)) record
     @ one_of_problems ''status'' (get_or [] (allowed_statuses c)) record
     @ superseded_problems record
     @ reviewed_problems w sd td record
     @ list_field_problems ''audience'' record
     @ list_field_problems ''invariants'' record
     @ tx"
  have v: "validate_frontmatter w [record] c = Inr ps"
    by (simp add: validate_frontmatter_def assms(3,4) for_records_single
        frontmatter_record_problems_def Let_def ne tx ps_def)
  have f: "filter is_stale_flag ps =
      (if td - d > sd
       then [Problem ''frontmatter'' (rel_path record) (stale_message (td - d) sd) None] else [])"
    unfolding ps_def filter_append
    by (simp add: no_flag_missing no_flag_title no_flag_one_of no_flag_superseded
        no_flag_list_field no_flag_taxonomy [OF tx] flag_reviewed [OF assms(1,2)])
  from v f show ?thesis by auto
qed

theorem stale_iff_older_than_threshold_witness:
  "\<exists>ps. validate_frontmatter demo_world [doc_stale] demo_contract = Inr ps \<and>
        filter is_stale_flag ps =
          [Problem ''frontmatter'' ''docs/a.md'' ''`last_reviewed` is stale (181 days > 180)'' None]"
proof -
  have 1: "fm_str (frontmatter doc_stale) ''last_reviewed'' = Some ''2024-01-02''" by code_simp
  have 2: "parse_review_date demo_world ''2024-01-02'' = Some 738887" by code_simp
  have 3: "stale_days_of demo_world demo_contract = Inr 180" by code_simp
  have 4: "current_date demo_world = Inr 739068" by code_simp
  have 5: "relative_to (path doc_stale) (docs_root demo_world) = Inr (''a.md'' # [])" by code_simp
  have 6: "rel_path doc_stale = ''docs/a.md''" by code_simp
  have 7: "stale_message (739068 - 738887) 180 = ''`last_reviewed` is stale (181 days > 180)''"
    by code_simp
  from stale_iff_older_than_threshold [OF 1 2 3 4 5] 6 7 show ?thesis by auto
qed

text \<open>
  C7 (as amended).  The collector makes a record for every file, whatever
  \<^verbatim>\<open>split_frontmatter\<close> reports: its metadata and body are the ones \<^verbatim>\<open>split_frontmatter\<close>
  returns, headings, anchors and links are extracted from that body, and every reported
  error becomes a diagnostic.  When the block cannot be delimited (no start delimiter, an
  invalid first line, no end delimiter) the metadata is empty and the body is the whole
  text.  For a record with empty metadata the metadata check gives exactly one
  missing-field diagnostic for each required field of the contract, and nothing else.
\<close>

theorem empty_metadata_record:
  "(fs_is_file w p \<and> read_text w p = Inr text0 \<and> relative_to p (repo_root w) = Inr rp \<and>
    rglob_md w = [p] \<longrightarrow>
      collect_docs w =
        Inr ([\<lparr>path = p, rel_path = as_posix rp, doc_text = text0,
                frontmatter = fst (split_frontmatter text0),
                body = fst (snd (split_frontmatter text0)),
                headings = fst (extract_headings_and_anchors (fst (snd (split_frontmatter text0)))),
                anchors = snd (extract_headings_and_anchors (fst (snd (split_frontmatter text0)))),
                links = extract_links (fst (snd (split_frontmatter text0)))\<rparr>],
             map (\<lambda>err. Problem ''frontmatter'' (as_posix rp) err None)
               (snd (snd (split_frontmatter text0))))) \<and>
   (\<not> startswith text0 FRONTMATTER_DELIM \<or>
    strip (hd (splitlines text0)) \<noteq> FRONTMATTER_DELIM \<or>
    find_end_idx 1 (drop 1 (splitlines text0)) = None \<longrightarrow>
      fst (split_frontmatter text0) = [] \<and> fst (snd (split_frontmatter text0)) = text0 \<and>
      snd (snd (split_frontmatter text0)) \<noteq> []) \<and>
   (frontmatter record = [] \<and> stale_days_of w c = Inr sd \<and> current_date w = Inr td \<longrightarrow>
      validate_frontmatter w [record] c =
        Inr (map (\<lambda>field. Problem ''frontmatter'' (rel_path record)
                            (''missing required field `'' @ field @ ''`'') None)
               (get_or [] (required_frontmatter c))))"
  (is "(?A \<longrightarrow> ?B) \<and> (?C \<longrightarrow> ?D) \<and> (?E \<longrightarrow> ?F)")
proof (intro conjI)
  show "?A \<longrightarrow> ?B"
  proof
    assume a: ?A
    obtain fm body0 errs where s: "split_frontmatter text0 = (fm, body0, errs)"
      by (cases "split_frontmatter text0")
    show ?B using a by (simp add: collect_docs_def s Let_def)
  qed
next
  show "?C \<longrightarrow> ?D"
    by (auto simp: split_frontmatter_def Let_def)
next
  show "?E \<longrightarrow> ?F"
    by (simp add: validate_frontmatter_def for_records_single frontmatter_record_problems_def
        Let_def missing_field_problems_def)
qed

theorem empty_metadata_record_witness:
  "collect_docs world_plain =
     Inr ([doc_plain], [Problem ''frontmatter'' ''docs/plain.md'' ''missing frontmatter start delimiter'' None]) \<and>
   validate_frontmatter world_plain [doc_plain] demo_contract =
     Inr [Problem ''frontmatter'' ''docs/plain.md'' ''missing required field `title`'' None,
          Problem ''frontmatter'' ''docs/plain.md'' ''missing required field `category`'' None,
          Problem ''frontmatter'' ''docs/plain.md'' ''missing required field `owner`'' None,
          Problem ''frontmatter'' ''docs/plain.md'' ''missing required field `status`'' None,
          Problem ''frontmatter'' ''docs/plain.md'' ''missing required field `last_reviewed`'' None]"
proof -
  let ?p = "[''repo'', ''docs'', ''plain.md'']"
  let ?t = "text_plain"
  have 1: "fs_is_file world_plain ?p \<and> read_text world_plain ?p = Inr ?t \<and>
      relative_to ?p (repo_root world_plain) = Inr [''docs'', ''plain.md''] \<and>
      rglob_md world_plain = [?p]" by code_simp
  have 2: "\<not> startswith ?t FRONTMATTER_DELIM" by code_simp
  have 3: "frontmatter doc_plain = [] \<and> stale_days_of world_plain demo_contract = Inr 180 \<and>
      current_date world_plain = Inr 739068" by code_simp
  have 4: "snd (snd (split_frontmatter ?t)) = [''missing frontmatter start delimiter'']" by code_simp
  have 5: "extract_headings_and_anchors ?t = ([''Title''], {''title''})" by code_simp
  have 6: "extract_links ?t = [LinkRef ''y.md'' 2]" by code_simp
  have 7: "as_posix [''docs'', ''plain.md''] = ''docs/plain.md''" by code_simp
  have 8: "get_or [] (required_frontmatter demo_contract) =
      [''title'', ''category'', ''owner'', ''status'', ''last_reviewed'']" by code_simp
  have 9: "rel_path doc_plain = ''docs/plain.md''" by code_simp
  note t = empty_metadata_record [of world_plain ?p ?t "[''docs'', ''plain.md'']" doc_plain
      demo_contract 180 739068]
  from t 2 have s: "fst (split_frontmatter ?t) = [] \<and> fst (snd (split_frontmatter ?t)) = ?t"
    by blast
  from t 1 have "collect_docs world_plain =
      Inr ([\<lparr>path = ?p, rel_path = as_posix [''docs'', ''plain.md''], doc_text = ?t,
              frontmatter = fst (split_frontmatter ?t),
              body = fst (snd (split_frontmatter ?t)),
              headings = fst (extract_headings_and_anchors (fst (snd (split_frontmatter ?t)))),
              anchors = snd (extract_headings_and_anchors (fst (snd (split_frontmatter ?t)))),
              links = extract_links (fst (snd (split_frontmatter ?t)))\<rparr>],
           map (\<lambda>err. Problem ''frontmatter'' (as_posix [''docs'', ''plain.md'']) err None)
             (snd (snd (split_frontmatter ?t))))"
    by blast
  then have a: "collect_docs world_plain =
     Inr ([doc_plain], [Problem ''frontmatter'' ''docs/plain.md'' ''missing frontmatter start delimiter'' None])"
    by (simp add: s 4 5 6 7 doc_plain_def)
  from t 3 have "validate_frontmatter world_plain [doc_plain] demo_contract =
        Inr (map (\<lambda>field. Problem ''frontmatter'' (rel_path doc_plain)
                            (''missing required field `'' @ field @ ''`'') None)
               (get_or [] (required_frontmatter demo_contract)))"
    by blast
  then have b: "validate_frontmatter world_plain [doc_plain] demo_contract =
     Inr [Problem ''frontmatter'' ''docs/plain.md'' ''missing required field `title`'' None,
          Problem ''frontmatter'' ''docs/plain.md'' ''missing required field `category`'' None,
          Problem ''frontmatter'' ''docs/plain.md'' ''missing required field `owner`'' None,
          Problem ''frontmatter'' ''docs/plain.md'' ''missing required field `status`'' None,
          Problem ''frontmatter'' ''docs/plain.md'' ''missing required field `last_reviewed`'' None]"
    by (simp add: 8 9)
  from a b show ?thesis by simp
qed

text \<open>
  The claim C7 as stated fails for a block between valid delimiters with a line that does
  not parse: the parser reports the line, the record keeps the metadata of the other
  lines, so its mapping is not empty and the metadata check goes on to the checks of the
  values.
\<close>

theorem partial_metadata_counterexample:
  "(case collect_docs world_broken of
      Inr ([record], problems0) \<Rightarrow>
        problems0 = [Problem ''frontmatter'' ''docs/broken.md''
                       ''frontmatter line 2: unsupported syntax `???`'' None] \<and>
        frontmatter record = [(''title'', Scalar (SStr ''T''))] \<and>
        validate_frontmatter world_broken [record] demo_contract =
          Inr [Problem ''frontmatter'' ''docs/broken.md'' ''missing required field `category`'' None,
               Problem ''frontmatter'' ''docs/broken.md'' ''missing required field `owner`'' None,
               Problem ''frontmatter'' ''docs/broken.md'' ''missing required field `status`'' None,
               Problem ''frontmatter'' ''docs/broken.md'' ''missing required field `last_reviewed`'' None,
               Problem ''frontmatter'' ''docs/broken.md''
                 (''`category` must be one of '' @ str_of_str_list [''how-to'', ''reference'', ''sop'']) None,
               Problem ''frontmatter'' ''docs/broken.md''
                 (''`owner` must be one of '' @ str_of_str_list [''team-x'']) None,
               Problem ''frontmatter'' ''docs/broken.md''
                 (''`status` must be one of '' @ str_of_str_list [''active'', ''superseded'']) None,
               Problem ''frontmatter'' ''docs/broken.md'' ''`last_reviewed` must be an ISO date string'' None,
               Problem ''frontmatter'' ''docs/broken.md'' ''`audience` must be a non-empty list'' None,
               Problem ''frontmatter'' ''docs/broken.md'' ''`invariants` must be a non-empty list'' None]
    | _ \<Rightarrow> False)"
  by code_simp

section \<open>Properties of the heading-order check\<close>

lemma first_index_None: "first_index xs x = None \<longleftrightarrow> x \<notin> set xs"
  by (induction xs) auto

lemma first_index_Some:
  "first_index xs x = Some i \<Longrightarrow> xs = take i xs @ x # drop (Suc i) xs \<and> x \<notin> set (take i xs)"
proof (induction xs arbitrary: i)
  case Nil
  then show ?case by simp
next
  case (Cons y ys)
  show ?case
  proof (cases "y = x")
    case True
    with Cons.prems show ?thesis by simp
  next
    case False
    with Cons.prems obtain j where j: "first_index ys x = Some j" "i = Suc j" by auto
    from Cons.IH [OF j(1)] False j(2) show ?thesis by simp
  qed
qed

lemma subseq_skip: "x \<notin> set pre \<Longrightarrow> subseq (x # ys) (pre @ zs) \<longleftrightarrow> subseq (x # ys) zs"
  by (induction pre) auto

lemma subseq_Cons_mem: "subseq (x # ys) zs \<Longrightarrow> x \<in> set zs"
  by (induction zs) (auto split: if_splits)

text \<open>One turn of the search, in terms of the headings not yet passed.\<close>

lemma index_from_None: "index_from hs req pos = None \<longleftrightarrow> req \<notin> set (drop pos hs)"
  by (simp add: index_from_def first_index_None)

lemma index_from_Some:
  assumes "index_from hs req pos = Some found_at"
  shows "subseq (req # reqs) (drop pos hs) \<longleftrightarrow> subseq reqs (drop (found_at + 1) hs)"
proof -
  from assms obtain i where i: "first_index (drop pos hs) req = Some i" "found_at = pos + i"
    by (auto simp: index_from_def)
  let ?xs = "drop pos hs"
  from first_index_Some [OF i(1)]
  have split: "?xs = take i ?xs @ req # drop (Suc i) ?xs" and nomem: "req \<notin> set (take i ?xs)"
    by simp_all
  have "subseq (req # reqs) ?xs \<longleftrightarrow> subseq (req # reqs) (take i ?xs @ req # drop (Suc i) ?xs)"
    using split by simp
  also have "\<dots> \<longleftrightarrow> subseq (req # reqs) (req # drop (Suc i) ?xs)"
    using nomem by (rule subseq_skip)
  also have "\<dots> \<longleftrightarrow> subseq reqs (drop (Suc i) ?xs)" by simp
  finally show ?thesis by (simp add: i(2) add.commute)
qed

lemma sop_scan_None: "sop_scan hs pos reqs = None \<longleftrightarrow> subseq reqs (drop pos hs)"
proof (induction reqs arbitrary: pos)
  case Nil
  show ?case by simp
next
  case (Cons req reqs)
  show ?case
  proof (cases "index_from hs req pos")
    case None
    then have "req \<notin> set (drop pos hs)" by (simp add: index_from_None)
    then have "\<not> subseq (req # reqs) (drop pos hs)" using subseq_Cons_mem by fastforce
    with None show ?thesis by simp
  next
    case (Some found_at)
    then show ?thesis using Cons.IH [of "found_at + 1"] index_from_Some [OF Some, of reqs] by simp
  qed
qed

lemma sop_scan_first_failure:
  assumes "subseq r1 (drop pos hs)" and "\<not> subseq (r1 @ [req]) (drop pos hs)"
  shows "sop_scan hs pos (r1 @ req # r2) = Some req"
  using assms
proof (induction r1 arbitrary: pos)
  case Nil
  then have "req \<notin> set (drop pos hs)" by (simp add: subseq_singleton_left)
  then have "index_from hs req pos = None" by (simp add: index_from_None)
  then show ?case by simp
next
  case (Cons a r1)
  from Cons.prems(1) have "a \<in> set (drop pos hs)" by (rule subseq_Cons_mem)
  then obtain found_at where f: "index_from hs a pos = Some found_at"
    using index_from_None [of hs a pos] by (cases "index_from hs a pos") auto
  have "subseq r1 (drop (found_at + 1) hs)"
    using Cons.prems(1) index_from_Some [OF f, of r1] by simp
  moreover have "\<not> subseq (r1 @ [req]) (drop (found_at + 1) hs)"
    using Cons.prems(2) index_from_Some [OF f, of "r1 @ [req]"] by simp
  ultimately have "sop_scan hs (found_at + 1) (r1 @ req # r2) = Some req" by (rule Cons.IH)
  with f show ?case by simp
qed

text \<open>
  C5.  For a document under the folder \<^verbatim>\<open>sop\<close> of the documents root, the heading-order
  check gives no diagnostic exactly when the required headings of the contract, white
  space normalized, are a subsequence (in order, not necessarily contiguous) of the
  headings of the document, normalized in the same way.  When \<open>req\<close> is the first required
  heading at which this fails (the required headings before it are a subsequence, with
  \<open>req\<close> added they are not), the check gives exactly one diagnostic, which cites \<open>req\<close>;
  the required headings after \<open>req\<close> play no part.
\<close>

theorem sop_heading_order:
  assumes "relative_to (path record) (docs_root w) = Inr (''sop'' # rest)"
  shows
    "(validate_sop_headings w [record] c = Inr [] \<longleftrightarrow>
        subseq (map normalize_heading (get_or [] (sop_required_headings c)))
          (map normalize_heading (headings record))) \<and>
     (map normalize_heading (get_or [] (sop_required_headings c)) = r1 @ [req] @ r2 \<and>
      subseq r1 (map normalize_heading (headings record)) \<and>
      \<not> subseq (r1 @ [req]) (map normalize_heading (headings record)) \<longrightarrow>
        validate_sop_headings w [record] c =
          Inr [Problem ''sop'' (rel_path record)
                 (''missing or out-of-order heading `'' @ req @ ''`'') None])"
proof -
  define required where "required = map normalize_heading (get_or [] (sop_required_headings c))"
  define hs where "hs = map normalize_heading (headings record)"
  have v: "validate_sop_headings w [record] c =
      (case sop_scan hs 0 required of
         None \<Rightarrow> Inr []
       | Some req \<Rightarrow>
           Inr [Problem ''sop'' (rel_path record)
                  (''missing or out-of-order heading `'' @ req @ ''`'') None])"
    using assms
    by (simp add: validate_sop_headings_def sop_record_problems_def required_def hs_def
        split: option.splits)
  have 1: "validate_sop_headings w [record] c = Inr [] \<longleftrightarrow> subseq required hs"
    using sop_scan_None [of hs 0 required] by (cases "sop_scan hs 0 required") (auto simp: v)
  have 2: "required = r1 @ [req] @ r2 \<and> subseq r1 hs \<and> \<not> subseq (r1 @ [req]) hs \<longrightarrow>
      validate_sop_headings w [record] c =
        Inr [Problem ''sop'' (rel_path record) (''missing or out-of-order heading `'' @ req @ ''`'') None]"
    using sop_scan_first_failure [of r1 0 hs req r2] by (auto simp: v)
  from 1 2 show ?thesis unfolding required_def hs_def by blast
qed

theorem sop_heading_order_witness:
  "validate_sop_headings demo_world [doc_sop] demo_contract =
     Inr [Problem ''sop'' ''docs/sop/deploy.md'' ''missing or out-of-order heading `Preconditions`'' None]"
proof -
  have 1: "relative_to (path doc_sop) (docs_root demo_world) = Inr (''sop'' # [''deploy.md''])"
    by code_simp
  have 2: "map normalize_heading (get_or [] (sop_required_headings demo_contract)) =
      [''Goal''] @ [''Preconditions''] @ [''Steps'']" by code_simp
  have 3: "map normalize_heading (headings doc_sop) = [''Goal'', ''Steps'']" by code_simp
  have 4: "subseq [''Goal''] [''Goal'', ''Steps'']" by simp
  have 5: "\<not> subseq ([''Goal''] @ [''Preconditions'']) [''Goal'', ''Steps'']" by simp
  have 6: "rel_path doc_sop = ''docs/sop/deploy.md''" by code_simp
  from sop_heading_order [OF 1, of demo_contract "[''Goal'']" "''Preconditions''" "[''Steps'']"]
    2 3 4 5 6 show ?thesis by simp
qed

section \<open>Properties of the link check\<close>

lemma resolve_checked:
  assumes "checked_path_target tgt"
  shows "resolve_markdown_link w record tgt =
     resolve_candidates w (base_path w record tgt)
       (or_none (drop 1 (dropWhile (\<lambda>c. c \<noteq> CHR ''#'') tgt)))"
proof -
  define path_part where "path_part = takeWhile (\<lambda>c. c \<noteq> CHR ''#'') tgt"
  from assms have t: "\<not> startswith tgt ''?''" "\<not> scheme_match tgt"
    "\<not> startswith tgt ''//''" "path_part \<noteq> []" "CHR ''?'' \<notin> set path_part"
    "startswith path_part ''/'' \<longrightarrow> startswith path_part ''/docs/''"
    by (auto simp: checked_path_target_def path_part_def Let_def)
  from t(4) have ne: "tgt \<noteq> []" by (auto simp: path_part_def)
  show ?thesis
  proof (cases "startswith path_part ''/docs/''")
    case True
    with t ne show ?thesis
      unfolding resolve_markdown_link_def base_path_def resolve_candidates_def
      by (simp add: path_part_def [symmetric] Let_def split: sum.splits)
  next
    case False
    with t(6) have "\<not> startswith path_part ''/''" by blast
    with False t ne show ?thesis
      unfolding resolve_markdown_link_def base_path_def resolve_candidates_def
      by (simp add: path_part_def [symmetric] Let_def split: sum.splits)
  qed
qed

text \<open>
  C1 (as amended).  For a link whose target is a relative or corpus-rooted path that is
  not skipped, and whose path \<open>base\<close> does not exist: when the name of \<open>base\<close> has no suffix,
  the resolver returns \<open>base\<close> with \<^verbatim>\<open>.md\<close> appended if that exists, else
  \<^verbatim>\<open>index.md\<close> inside \<open>base\<close> if that exists, else \<open>base\<close>; when the name has a suffix it
  returns \<open>base\<close> and tries nothing.  Whenever the path the resolver returns does not
  exist (after \<^verbatim>\<open>resolve()\<close>), the link check gives exactly one diagnostic for the link,
  with the literal target, the returned path and the line of the link.
\<close>

theorem broken_link_reported:
  assumes "checked_path_target tgt"
    and "base = base_path w record tgt"
    and "\<not> fs_exists w base"
  shows "(path_suffix base = [] \<and> name_of base \<noteq> [] \<longrightarrow>
            resolve_markdown_link w record tgt =
              Inr (Some (if fs_exists w (butlast base @ [name_of base @ ''.md''])
                         then butlast base @ [name_of base @ ''.md'']
                         else if fs_exists w (base @ [''index.md'']) then base @ [''index.md'']
                         else base),
                   or_none (drop 1 (dropWhile (\<lambda>c. c \<noteq> CHR ''#'') tgt)), None)) \<and>
         (path_suffix base \<noteq> [] \<longrightarrow>
            resolve_markdown_link w record tgt =
              Inr (Some base, or_none (drop 1 (dropWhile (\<lambda>c. c \<noteq> CHR ''#'') tgt)), None)) \<and>
         (resolve_markdown_link w record tgt = Inr (Some chosen, anchor, None) \<and>
          \<not> fs_exists w (fs_resolve w chosen) \<longrightarrow>
            link_problems w cache record (LinkRef tgt n) =
              Inr [Problem ''links'' (rel_path record)
                     (''broken link target `'' @ tgt @ ''` (resolved `'' @ str_of_path chosen @ ''`)'')
                     (Some n)])"
proof -
  note r = resolve_checked [OF assms(1), of w "record", folded assms(2)]
  have ws: "path_suffix base = [] \<and> name_of base \<noteq> [] \<Longrightarrow>
      with_suffix base ''.md'' = Inr (butlast base @ [name_of base @ ''.md''])"
    by (auto simp: with_suffix_def path_suffix_def name_of_def Let_def)
  have 1: "path_suffix base = [] \<and> name_of base \<noteq> [] \<longrightarrow>
            resolve_markdown_link w record tgt =
              Inr (Some (if fs_exists w (butlast base @ [name_of base @ ''.md''])
                         then butlast base @ [name_of base @ ''.md'']
                         else if fs_exists w (base @ [''index.md'']) then base @ [''index.md'']
                         else base),
                   or_none (drop 1 (dropWhile (\<lambda>c. c \<noteq> CHR ''#'') tgt)), None)"
    using ws assms(3) by (simp add: r resolve_candidates_def)
  have 2: "path_suffix base \<noteq> [] \<longrightarrow>
      resolve_markdown_link w record tgt =
        Inr (Some base, or_none (drop 1 (dropWhile (\<lambda>c. c \<noteq> CHR ''#'') tgt)), None)"
    using assms(3) by (simp add: r resolve_candidates_def)
  have 3: "resolve_markdown_link w record tgt = Inr (Some chosen, anchor, None) \<and>
          \<not> fs_exists w (fs_resolve w chosen) \<longrightarrow>
            link_problems w cache record (LinkRef tgt n) =
              Inr [Problem ''links'' (rel_path record)
                     (''broken link target `'' @ tgt @ ''` (resolved `'' @ str_of_path chosen @ ''`)'')
                     (Some n)]"
    by (simp add: link_problems_def broken_link_message_def Let_def)
  from 1 2 3 show ?thesis by blast
qed

lemma for_links_single: "for_links f [l] = f l"
  by (cases "f l") simp_all

theorem broken_link_reported_witness:
  "validate_links demo_world [doc_links ''./missing.md''] =
     Inr [Problem ''links'' ''docs/a.md''
            ''broken link target `./missing.md` (resolved `/repo/docs/missing.md`)'' (Some 1)] \<and>
   resolve_markdown_link demo_world (doc_links ''./guide'') ''./guide'' =
     Inr (Some [''repo'', ''docs'', ''guide.md''], None, None)"
proof -
  let ?base = "[''repo'', ''docs'', ''missing.md'']"
  let ?r = "doc_links ''./missing.md''"
  have 1: "checked_path_target ''./missing.md''" by code_simp
  have 2: "?base = base_path demo_world ?r ''./missing.md''" by code_simp
  have 3: "\<not> fs_exists demo_world ?base" by code_simp
  have 4: "path_suffix ?base \<noteq> []" by code_simp
  have 5: "or_none (drop 1 (dropWhile (\<lambda>c. c \<noteq> CHR ''#'') ''./missing.md'')) = None" by code_simp
  have 6: "\<not> fs_exists demo_world (fs_resolve demo_world ?base)" by code_simp
  have 7: "rel_path ?r = ''docs/a.md''" "links ?r = [LinkRef ''./missing.md'' 1]" by code_simp+
  have 8: "str_of_path ?base = ''/repo/docs/missing.md''" by code_simp
  note t = broken_link_reported [OF 1 2 3, of ?base None "heading_cache demo_world [?r]" 1]
  from t 4 5 have r: "resolve_markdown_link demo_world ?r ''./missing.md'' = Inr (Some ?base, None, None)"
    by simp
  with t 6 have "link_problems demo_world (heading_cache demo_world [?r]) ?r (LinkRef ''./missing.md'' 1) =
      Inr [Problem ''links'' (rel_path ?r)
             (''broken link target `'' @ ''./missing.md'' @ ''` (resolved `'' @ str_of_path ?base @ ''`)'')
             (Some 1)]"
    by blast
  then have a: "validate_links demo_world [?r] =
      Inr [Problem ''links'' ''docs/a.md''
            ''broken link target `./missing.md` (resolved `/repo/docs/missing.md`)'' (Some 1)]"
    by (simp add: validate_links_def for_records_single for_links_single 7 8)
  let ?g = "[''repo'', ''docs'', ''guide'']"
  let ?rg = "doc_links ''./guide''"
  have g1: "checked_path_target ''./guide''" by code_simp
  have g2: "?g = base_path demo_world ?rg ''./guide''" by code_simp
  have g3: "\<not> fs_exists demo_world ?g" by code_simp
  have g4: "path_suffix ?g = [] \<and> name_of ?g \<noteq> []" by code_simp
  have g5: "fs_exists demo_world (butlast ?g @ [name_of ?g @ ''.md''])" by code_simp
  have g6: "butlast ?g @ [name_of ?g @ ''.md''] = [''repo'', ''docs'', ''guide.md'']" by code_simp
  have g7: "or_none (drop 1 (dropWhile (\<lambda>c. c \<noteq> CHR ''#'') ''./guide'')) = None" by code_simp
  from broken_link_reported [OF g1 g2 g3] g4 g5 g6 g7
  have b: "resolve_markdown_link demo_world ?rg ''./guide'' =
      Inr (Some [''repo'', ''docs'', ''guide.md''], None, None)"
    by simp
  from a b show ?thesis by simp
qed

text \<open>
  The claim C1 as stated fails for a target whose name has a suffix: for the link
  \<^verbatim>\<open>./notes.v2\<close> the file \<^verbatim>\<open>notes.v2\<close> is absent and \<^verbatim>\<open>notes.v2.md\<close> is there, but the
  resolver does not try it and the link is reported as broken.
\<close>

theorem suffixed_target_counterexample:
  "\<not> fs_exists demo_world [''repo'', ''docs'', ''notes.v2''] \<and>
   fs_exists demo_world [''repo'', ''docs'', ''notes.v2.md''] \<and>
   validate_links demo_world [doc_links ''./notes.v2''] =
     Inr [Problem ''links'' ''docs/a.md''
            ''broken link target `./notes.v2` (resolved `/repo/docs/notes.v2`)'' (Some 1)]"
  by code_simp

section \<open>Properties of the audit report\<close>

text \<open>
  C8.  When the six checks and the freshness metrics return, \<^verbatim>\<open>write_audit_report\<close>
  first makes the directory, writes the report and prints where, whatever the
  diagnostics are; its exit code is 0 when there is no diagnostic at all and 1 otherwise.
  The report holds the number of records, the stale documents, and as percentage 0.0
  when no document has a review date that parses.  For a corpus without documents, with
  the required directories present, no diagram file and no API description, and with
  environment overrides that parse, the command writes a report with document count 0,
  percentage 0.0 and no stale document, prints \<^verbatim>\<open>OK\<close> and returns 0.
\<close>

theorem audit_report_written_first:
  "(validate_frontmatter w records c = Inr fp \<and> validate_sop_headings w records c = Inr sp \<and>
    validate_links w records = Inr lp \<and> validate_mermaid w records False = Inr (mp, mc) \<and>
    validate_openapi w False = Inr (op, oc) \<and>
    frontmatter_freshness_metrics w records c = Inr (fresh, total_reviewed, stale_docs) \<longrightarrow>
      (\<exists>report tail.
         write_audit_report w records pp c output =
           Inr ([MakeDirs (parent output), WriteReport output report,
                 Print (''Wrote audit report: '' @ str_of_path output)] @ tail,
                if pp @ validate_structure w c @ fp @ sp @ lp @ mp @ op = [] then 0 else 1) \<and>
         document_count report = length records \<and>
         stale_documents report = stale_docs \<and>
         fresh_review_percent report =
           (if total_reviewed = 0 then 0 else round_percent w fresh total_reviewed))) \<and>
   (rglob_md w = [] \<and> validate_structure w c = [] \<and> rglob_mmd w = [] \<and> rglob_openapi w = [] \<and>
    stale_days_of w c = Inr sd \<and> current_date w = Inr td \<longrightarrow>
      (\<exists>report.
         audit_report_command w c output =
           Inr ([MakeDirs (parent output), WriteReport output report,
                 Print (''Wrote audit report: '' @ str_of_path output), Print ''OK''], 0) \<and>
         document_count report = 0 \<and> fresh_review_percent report = 0 \<and>
         stale_documents report = []))"
  (is "(?A \<longrightarrow> ?B) \<and> (?C \<longrightarrow> ?D)")
proof (intro conjI)
  show "?A \<longrightarrow> ?B"
  proof
    assume a: ?A
    show ?B
    proof (cases "pp @ validate_structure w c @ fp @ sp @ lp @ mp @ op = []")
      case True
      with a show ?thesis by (simp add: write_audit_report_def Let_def)
    next
      case False
      with a show ?thesis by (auto simp: write_audit_report_def Let_def)
    qed
  qed
next
  show "?C \<longrightarrow> ?D"
  proof
    assume a: ?C
    have 1: "collect_docs w = Inr ([], [])" using a by (simp add: collect_docs_def)
    have 2: "validate_frontmatter w [] c = Inr []" using a by (simp add: validate_frontmatter_def)
    have 3: "validate_sop_headings w [] c = Inr []" by (simp add: validate_sop_headings_def)
    have 4: "validate_links w [] = Inr []" by (simp add: validate_links_def)
    have 5: "validate_mermaid w [] False = Inr ([], 0)"
      using a by (simp add: validate_mermaid_def render_mermaid_sources_def)
    have 6: "validate_openapi w False = Inr ([], 0)" using a by (simp add: validate_openapi_def)
    have 7: "frontmatter_freshness_metrics w [] c = Inr (0, 0, [])"
      using a by (simp add: frontmatter_freshness_metrics_def)
    show ?D
      using a by (simp add: audit_report_command_def write_audit_report_def 1 2 3 4 5 6 7 Let_def)
  qed
qed

theorem audit_report_written_first_witness:
  "(\<exists>report tail.
      write_audit_report demo_world [doc_sop] [] demo_contract audit_output =
        Inr ([MakeDirs [''repo'', ''out''], WriteReport audit_output report,
              Print ''Wrote audit report: /repo/out/audit.json''] @ tail, 1) \<and>
      document_count report = 1) \<and>
   (\<exists>report.
      audit_report_command demo_world demo_contract audit_output =
        Inr ([MakeDirs [''repo'', ''out''], WriteReport audit_output report,
              Print ''Wrote audit report: /repo/out/audit.json'', Print ''OK''], 0) \<and>
      document_count report = 0 \<and> fresh_review_percent report = 0 \<and>
      stale_documents report = [])"
proof -
  define fp where "fp = map (\<lambda>field. Problem ''frontmatter'' ''docs/sop/deploy.md''
      (''missing required field `'' @ field @ ''`'') None)
      [''title'', ''category'', ''owner'', ''status'', ''last_reviewed'']"
  define sp where "sp = [Problem ''sop'' ''docs/sop/deploy.md''
      ''missing or out-of-order heading `Preconditions`'' None]"
  have 1: "validate_frontmatter demo_world [doc_sop] demo_contract = Inr fp \<and>
      validate_sop_headings demo_world [doc_sop] demo_contract = Inr sp \<and>
      validate_links demo_world [doc_sop] = Inr [] \<and>
      validate_mermaid demo_world [doc_sop] False = Inr ([], 0) \<and>
      validate_openapi demo_world False = Inr ([], 0) \<and>
      frontmatter_freshness_metrics demo_world [doc_sop] demo_contract = Inr (0, 0, [])"
    unfolding fp_def sp_def by code_simp
  have 2: "rglob_md demo_world = [] \<and> validate_structure demo_world demo_contract = [] \<and>
      rglob_mmd demo_world = [] \<and> rglob_openapi demo_world = [] \<and>
      stale_days_of demo_world demo_contract = Inr 180 \<and> current_date demo_world = Inr 739068"
    by code_simp
  have 3: "parent audit_output = [''repo'', ''out'']"
    "str_of_path audit_output = ''/repo/out/audit.json''" by code_simp+
  have 4: "sp \<noteq> []" by (simp add: sp_def)
  note t = audit_report_written_first [of demo_world "[doc_sop]" demo_contract fp sp "[]" "[]" 0
      "[]" 0 0 0 "[]" "[]" audit_output 180 739068]
  from t 1 4 have a: "\<exists>report tail.
      write_audit_report demo_world [doc_sop] [] demo_contract audit_output =
        Inr ([MakeDirs [''repo'', ''out''], WriteReport audit_output report,
              Print ''Wrote audit report: /repo/out/audit.json''] @ tail, 1) \<and>
      document_count report = 1"
    by (auto simp: 3)
  from t 2 have b: "\<exists>report.
      audit_report_command demo_world demo_contract audit_output =
        Inr ([MakeDirs [''repo'', ''out''], WriteReport audit_output report,
              Print ''Wrote audit report: /repo/out/audit.json'', Print ''OK''], 0) \<and>
      document_count report = 0 \<and> fresh_review_percent report = 0 \<and>
      stale_documents report = []"
    by (simp add: 3)
  from a b show ?thesis by blast
qed

end
